theory Spec2Isabelle
  imports Main "HOL-Library.Word"
begin

section \<open>The rotating file backend of go-logging (file.go)\<close>

text \<open>
  The backend is embedded as explicit state passing. Go's pointer receiver
  \<^verbatim>\<open>w *FileBackend\<close> becomes a record that every operation takes and returns; the
  operating system (files, open descriptors, clock) is a second record. Go's \<^verbatim>\<open>int\<close>
  and \<^verbatim>\<open>int64\<close> are 64-bit words, so that additions wrap and comparisons are signed,
  as on a 64-bit platform. Strings and byte slices are lists of 8-bit characters.
\<close>

subsection \<open>Go values\<close>

type_synonym go_int = "64 word"
type_synonym int64 = "64 word"

text \<open>\<^verbatim>\<open>len(s)\<close> as a Go \<^verbatim>\<open>int\<close>.\<close>

definition len :: "'a list \<Rightarrow> go_int" where
  "len xs = of_nat (length xs)"

text \<open>
  A \<^verbatim>\<open>time.Time\<close>, as far as the backend reads it: the Unix seconds and the calendar
  date in the value's own location.
\<close>

record go_time =
  Unix :: int64
  Year :: go_int
  Month :: go_int
  Day :: go_int

text \<open>The file system: a path names a directory or a regular file with its bytes.\<close>

record finfo =
  IsDir :: bool
  ModTime :: go_time
  Data :: string

definition Size :: "finfo \<Rightarrow> int64" where
  "Size f = of_nat (length (Data f))"

datatype os_error = ENOENT | EISDIR | EACCES | EIO | ENOSPC | ErrInvalid | ErrClosed

datatype syscall = SysOpenFile | SysOpen | SysFstat | SysRead | SysWrite | SysRename

text \<open>The errors the backend builds, one constructor for each message of the source.\<close>

datatype error =
  ErrNoFilename \<comment> \<open>\<^verbatim>\<open>FileBackend must have filename\<close>\<close>
| ErrOs os_error \<comment> \<open>an error of the operating system, passed on as it is\<close>
| ErrGetStat os_error \<comment> \<open>\<^verbatim>\<open>get stat err: %s\<close>\<close>
| ErrNoFreeNumber string \<comment> \<open>\<^verbatim>\<open>Rotate: Cannot find free log number to rename %s\<close>\<close>
| ErrRotateStartLogger error \<comment> \<open>\<^verbatim>\<open>Rotate StartLogger: %s\<close>\<close>
| ErrRotate os_error \<comment> \<open>\<^verbatim>\<open>Rotate: %s\<close>\<close>

datatype panic =
  IndexOutOfRange
| NilPointerDereference
| SendOnClosedChannel
| CloseOfNilChannel
| CloseOfClosedChannel

text \<open>What the backend prints on the standard error stream.\<close>

datatype diag =
  DiagRotate string error \<comment> \<open>\<^verbatim>\<open>FileLogWriter(%q): %s\<close>\<close>
| DiagWrite string os_error \<comment> \<open>\<^verbatim>\<open>unable to File Log msg:%s [error]%s\<close>\<close>
| DiagDelete string panic \<comment> \<open>\<^verbatim>\<open>Unable to delete old log '%s', error: %v\<close>\<close>

datatype goroutine = Consumer | DeleteOldLog

text \<open>
  Every call that acts on the outside world is recorded, in order, whether it succeeds
  or not: the trace is what an observer of the process sees.
\<close>

datatype event =
  EvMkdirAll string
| EvOpenFile string
| EvClose "nat option"
| EvSync "nat option"
| EvWrite "nat option" string
| EvRename string string
| EvRemove string
| EvStderr diag
| EvGo goroutine

text \<open>
  \<open>fds\<close> maps an open descriptor to the path it was opened on; a closed descriptor is
  absent. \<open>fault\<close> makes a system call fail for a reason outside the model
  (permissions, a full disk, a dead device). The calls whose error the source never
  looks at or only tests for presence (\<^verbatim>\<open>Lstat\<close>, \<^verbatim>\<open>Remove\<close>, \<^verbatim>\<open>Close\<close>, \<^verbatim>\<open>Sync\<close>) fail
  only for the reason the model shows: a missing path, a closed or nil descriptor.
\<close>

record os_state =
  files :: "string \<rightharpoonup> finfo"
  fds :: "nat \<rightharpoonup> string"
  next_fd :: nat
  now :: go_time
  fault :: "syscall \<Rightarrow> os_error option"
  trace :: "event list"

definition emit :: "event \<Rightarrow> os_state \<Rightarrow> os_state" where
  "emit e os = os\<lparr>trace := trace os @ [e]\<rparr>"

subsection \<open>The system calls the backend makes\<close>

text \<open>\<^verbatim>\<open>os.Lstat\<close> and \<^verbatim>\<open>os.Stat\<close> (the model has no symbolic links).\<close>

definition Lstat :: "os_state \<Rightarrow> string \<Rightarrow> os_error + finfo" where
  "Lstat os name = (case files os name of None \<Rightarrow> Inl ENOENT | Some f \<Rightarrow> Inr f)"

definition Stat :: "os_state \<Rightarrow> string \<Rightarrow> os_error + finfo" where
  "Stat os name = Lstat os name"

text \<open>\<^verbatim>\<open>os.MkdirAll\<close>; the source discards its result.\<close>

definition MkdirAll :: "string \<Rightarrow> os_state \<Rightarrow> os_state" where
  "MkdirAll p os =
     (let os1 = emit (EvMkdirAll p) os
      in if p = [] then os1
         else case files os p of
                Some f \<Rightarrow> os1
              | None \<Rightarrow> os1\<lparr>files := (files os)(p \<mapsto> \<lparr>IsDir = True, ModTime = now os, Data = []\<rparr>)\<rparr>)"

text \<open>\<^verbatim>\<open>os.OpenFile(name, O_WRONLY|O_APPEND|O_CREATE, perm)\<close>.\<close>

definition OpenFile :: "string \<Rightarrow> os_state \<Rightarrow> (os_error + nat) \<times> os_state" where
  "OpenFile name os =
     (let os1 = emit (EvOpenFile name) os
      in case fault os SysOpenFile of
           Some e \<Rightarrow> (Inl e, os1)
         | None \<Rightarrow>
            (case files os name of
               Some f \<Rightarrow>
                 if IsDir f then (Inl EISDIR, os1)
                 else (Inr (next_fd os),
                       os1\<lparr>fds := (fds os)(next_fd os \<mapsto> name), next_fd := Suc (next_fd os)\<rparr>)
             | None \<Rightarrow>
                 (Inr (next_fd os),
                  os1\<lparr>files := (files os)(name \<mapsto> \<lparr>IsDir = False, ModTime = now os, Data = []\<rparr>),
                      fds := (fds os)(next_fd os \<mapsto> name), next_fd := Suc (next_fd os)\<rparr>)))"

text \<open>\<^verbatim>\<open>(*os.File).Close\<close>, \<^verbatim>\<open>Sync\<close>, \<^verbatim>\<open>Stat\<close> and \<^verbatim>\<open>Write\<close>; a nil file gives \<^verbatim>\<open>ErrInvalid\<close>.\<close>

definition CloseFile :: "nat option \<Rightarrow> os_state \<Rightarrow> os_error option \<times> os_state" where
  "CloseFile fw os =
     (let os1 = emit (EvClose fw) os
      in case fw of
           None \<Rightarrow> (Some ErrInvalid, os1)
         | Some fd \<Rightarrow>
            (case fds os fd of
               None \<Rightarrow> (Some ErrClosed, os1)
             | Some p \<Rightarrow> (None, os1\<lparr>fds := (fds os)(fd := None)\<rparr>)))"

definition SyncFile :: "nat option \<Rightarrow> os_state \<Rightarrow> os_error option \<times> os_state" where
  "SyncFile fw os =
     (let os1 = emit (EvSync fw) os
      in case fw of
           None \<Rightarrow> (Some ErrInvalid, os1)
         | Some fd \<Rightarrow>
            (case fds os fd of
               None \<Rightarrow> (Some ErrClosed, os1)
             | Some p \<Rightarrow> (None, os1)))"

definition StatFile :: "nat option \<Rightarrow> os_state \<Rightarrow> os_error + finfo" where
  "StatFile fw os =
     (case fw of
        None \<Rightarrow> Inl ErrInvalid
      | Some fd \<Rightarrow>
         (case fault os SysFstat of
            Some e \<Rightarrow> Inl e
          | None \<Rightarrow>
             (case fds os fd of
                None \<Rightarrow> Inl ErrClosed
              | Some p \<Rightarrow> Lstat os p)))"

definition WriteFile :: "nat option \<Rightarrow> string \<Rightarrow> os_state \<Rightarrow> os_error option \<times> os_state" where
  "WriteFile fw b os =
     (let os1 = emit (EvWrite fw b) os
      in case fw of
           None \<Rightarrow> (Some ErrInvalid, os1)
         | Some fd \<Rightarrow>
            (case fault os SysWrite of
               Some e \<Rightarrow> (Some e, os1)
             | None \<Rightarrow>
                (case fds os fd of
                   None \<Rightarrow> (Some ErrClosed, os1)
                 | Some p \<Rightarrow>
                    (case files os p of
                       None \<Rightarrow> (None, os1)
                     | Some f \<Rightarrow>
                        (None, os1\<lparr>files := (files os)(p \<mapsto> f\<lparr>ModTime := now os, Data := Data f @ b\<rparr>)\<rparr>)))))"

text \<open>\<^verbatim>\<open>os.Rename\<close> and \<^verbatim>\<open>os.Remove\<close>.\<close>

definition Rename :: "string \<Rightarrow> string \<Rightarrow> os_state \<Rightarrow> os_error option \<times> os_state" where
  "Rename src dst os =
     (let os1 = emit (EvRename src dst) os
      in case fault os SysRename of
           Some e \<Rightarrow> (Some e, os1)
         | None \<Rightarrow>
            (case files os src of
               None \<Rightarrow> (Some ENOENT, os1)
             | Some f \<Rightarrow> (None, os1\<lparr>files := (files os)(src := None, dst \<mapsto> f)\<rparr>)))"

definition Remove :: "string \<Rightarrow> os_state \<Rightarrow> os_error option \<times> os_state" where
  "Remove name os =
     (let os1 = emit (EvRemove name) os
      in case files os name of
           None \<Rightarrow> (Some ENOENT, os1)
         | Some f \<Rightarrow> (None, os1\<lparr>files := (files os)(name := None)\<rparr>))"

subsection \<open>The backend\<close>

text \<open>
  A buffered channel of messages: its capacity, the messages sent and not yet received,
  and whether it has been closed. The unbuffered signal channel carries no data: only
  whether it has been closed.
\<close>

record msg_chan =
  ch_cap :: go_int
  ch_buf :: "string list"
  ch_closed :: bool

record FileBackend =
  status :: "8 word"
  Filename :: string
  fileWriter :: "nat option"
  MaxLines :: go_int
  maxLinesCurLines :: go_int
  MaxSize :: go_int
  maxSizeCurSize :: go_int
  Daily :: bool
  MaxDays :: int64
  dailyOpenDate :: go_int
  Rotate :: bool
  Perm :: "32 word"
  fileNameOnly :: string
  suffix :: string
  asyncMsgChan :: "msg_chan option"
  asyncSignalChan :: "bool option"

type_synonym state = "FileBackend \<times> os_state"

text \<open>\<^verbatim>\<open>needRotate\<close>, file.go lines 112 to 117.\<close>

definition needRotate :: "FileBackend \<Rightarrow> go_int \<Rightarrow> go_int \<Rightarrow> bool" where
  "needRotate w sz day =
     ((0 <s MaxLines w \<and> MaxLines w \<le>s maxLinesCurLines w) \<or>
      (0 <s MaxSize w \<and> MaxSize w \<le>s maxSizeCurSize w) \<or>
      (Daily w \<and> day \<noteq> dailyOpenDate w))"

text \<open>\<^verbatim>\<open>write\<close>, file.go lines 177 to 188 (\<open>write\<close> is a keyword of the proof language).\<close>

definition write_msg :: "string \<Rightarrow> state \<Rightarrow> state" where
  "write_msg msg s =
     (case s of (w, os) \<Rightarrow>
        (case WriteFile (fileWriter w) msg os of
           (None, os1) \<Rightarrow>
             (w\<lparr>maxLinesCurLines := maxLinesCurLines w + 1,
                maxSizeCurSize := maxSizeCurSize w + len msg\<rparr>, os1)
         | (Some err, os1) \<Rightarrow> (w, emit (EvStderr (DiagWrite msg err)) os1)))"

subsection \<open>Library functions on strings and paths\<close>

text \<open>\<^verbatim>\<open>strings.HasPrefix\<close>, \<^verbatim>\<open>strings.HasSuffix\<close>, \<^verbatim>\<open>strings.TrimSuffix\<close>.\<close>

definition HasPrefix :: "string \<Rightarrow> string \<Rightarrow> bool" where
  "HasPrefix s p = (length p \<le> length s \<and> take (length p) s = p)"

definition HasSuffix :: "string \<Rightarrow> string \<Rightarrow> bool" where
  "HasSuffix s x = (length x \<le> length s \<and> drop (length s - length x) s = x)"

definition TrimSuffix :: "string \<Rightarrow> string \<Rightarrow> string" where
  "TrimSuffix s x = (if HasSuffix s x then take (length s - length x) s else s)"

text \<open>
  \<^verbatim>\<open>filepath.Ext\<close> scans from the end of the path to the last separator and returns the
  text from the first dot it meets; \<open>Ext_scan\<close> is that loop, on the reversed path.
\<close>

fun Ext_scan :: "string \<Rightarrow> string \<Rightarrow> string" where
  "Ext_scan [] acc = []"
| "Ext_scan (c # r) acc =
     (if c = CHR ''/'' then []
      else if c = CHR ''.'' then c # acc
      else Ext_scan r (c # acc))"

definition Ext :: "string \<Rightarrow> string" where
  "Ext path = Ext_scan (rev path) []"

text \<open>\<^verbatim>\<open>filepath.Split\<close> cuts the path after its last separator.\<close>

definition Split :: "string \<Rightarrow> string \<times> string" where
  "Split path =
     (let n = length (takeWhile (\<lambda>c. c \<noteq> CHR ''/'') (rev path))
      in (take (length path - n) path, drop (length path - n) path))"

text \<open>
  \<^verbatim>\<open>filepath.Base\<close>: the last element of the path, trailing separators dropped first;
  \<^verbatim>\<open>.\<close> for the empty path and \<^verbatim>\<open>/\<close> for a path of separators only.
\<close>

definition Base :: "string \<Rightarrow> string" where
  "Base path =
     (if path = [] then ''.''
      else let p = rev (dropWhile (\<lambda>c. c = CHR ''/'') (rev path));
               b = rev (takeWhile (\<lambda>c. c \<noteq> CHR ''/'') (rev p))
           in if b = [] then ''/'' else b)"

text \<open>
  Decimal output. \<^verbatim>\<open>appendInt\<close> of package \<^verbatim>\<open>time\<close> writes a sign and the digits
  padded with zeros to the width; \<^verbatim>\<open>Format("2006-01-02")\<close> is year, month and day
  at widths 4, 2 and 2; \<^verbatim>\<open>%03d\<close> pads to width 3.
\<close>

definition digit :: "nat \<Rightarrow> char" where
  "digit d = ''0123456789'' ! d"

fun dec :: "nat \<Rightarrow> string" where
  "dec n = (if n < 10 then [digit n] else dec (n div 10) @ [digit (n mod 10)])"

declare dec.simps [simp del]

definition zero_pad :: "nat \<Rightarrow> string \<Rightarrow> string" where
  "zero_pad width s = replicate (width - length s) (CHR ''0'') @ s"

definition appendInt :: "int \<Rightarrow> nat \<Rightarrow> string" where
  "appendInt x width = (if x < 0 then ''-'' else []) @ zero_pad width (dec (nat \<bar>x\<bar>))"

definition Format_date :: "go_time \<Rightarrow> string" where
  "Format_date t =
     appendInt (sint (Year t)) 4 @ ''-'' @ appendInt (sint (Month t)) 2 @ ''-'' @
     appendInt (sint (Day t)) 2"

definition Sprintf_03d :: "nat \<Rightarrow> string" where
  "Sprintf_03d n = zero_pad 3 (dec n)"

subsection \<open>Opening the log file and counting its lines\<close>

datatype read_err = RNil | REOF | RErr os_error

text \<open>
  \<^verbatim>\<open>os.Open\<close> for reading, and one \<^verbatim>\<open>Read\<close> into a buffer of \<open>n\<close> bytes from the
  bytes \<open>rest\<close> not read yet: it fills the buffer as far as bytes remain, and reports
  \<^verbatim>\<open>io.EOF\<close> with no bytes at the end.
\<close>

definition Open :: "os_state \<Rightarrow> string \<Rightarrow> os_error + finfo" where
  "Open os name =
     (case fault os SysOpen of Some e \<Rightarrow> Inl e | None \<Rightarrow> Lstat os name)"

definition ReadFile :: "os_state \<Rightarrow> bool \<Rightarrow> string \<Rightarrow> nat \<Rightarrow> nat \<times> read_err" where
  "ReadFile os dir rest n =
     (case fault os SysRead of
        Some e \<Rightarrow> (0, RErr e)
      | None \<Rightarrow>
         if dir then (0, RErr EISDIR)
         else if rest = [] then (0, REOF)
         else (min n (length rest), RNil))"

text \<open>\<^verbatim>\<open>bytes.Count(b, "\n")\<close>.\<close>

definition Count_nl :: "string \<Rightarrow> go_int" where
  "Count_nl b = of_nat (count_list b (CHR 0x0A))"

text \<open>The loop of \<^verbatim>\<open>lines\<close>, file.go lines 226 to 237, on the bytes not read yet.\<close>

function lines_loop :: "os_state \<Rightarrow> bool \<Rightarrow> string \<Rightarrow> go_int \<Rightarrow> go_int \<times> error option" where
  "lines_loop os dir rest count =
     (let c = fst (ReadFile os dir rest 32768)
      in case snd (ReadFile os dir rest 32768) of
           RErr e \<Rightarrow> (count, Some (ErrOs e))
         | REOF \<Rightarrow> (count + Count_nl (take c rest), None)
         | RNil \<Rightarrow> lines_loop os dir (drop c rest) (count + Count_nl (take c rest)))"
  by pat_completeness auto
termination
  by (relation "measure (\<lambda>(os, dir, rest, count). length rest)")
     (auto simp: ReadFile_def split: option.splits if_splits)

declare lines_loop.simps [simp del]

text \<open>\<^verbatim>\<open>lines\<close>, file.go lines 215 to 240.\<close>

definition lines :: "FileBackend \<Rightarrow> os_state \<Rightarrow> go_int \<times> error option" where
  "lines w os =
     (case Open os (Filename w) of
        Inl err \<Rightarrow> (0, Some (ErrOs err))
      | Inr f \<Rightarrow> lines_loop os (IsDir f) (Data f) 0)"

text \<open>\<^verbatim>\<open>createLogFile\<close>, file.go lines 190 to 194.\<close>

definition createLogFile :: "FileBackend \<Rightarrow> os_state \<Rightarrow> (os_error + nat) \<times> os_state" where
  "createLogFile w os = OpenFile (Filename w) os"

text \<open>
  \<^verbatim>\<open>initFd\<close>, file.go lines 196 to 213. The counters are assigned before the lines are
  counted, so an error of \<^verbatim>\<open>lines\<close> leaves the size and the day set.
\<close>

definition initFd :: "FileBackend \<Rightarrow> os_state \<Rightarrow> error option \<times> FileBackend" where
  "initFd w os =
     (case StatFile (fileWriter w) os of
        Inl err \<Rightarrow> (Some (ErrGetStat err), w)
      | Inr fInfo \<Rightarrow>
         (let w1 = w\<lparr>maxSizeCurSize := Size fInfo,
                     dailyOpenDate := Day (now os),
                     maxLinesCurLines := 0\<rparr>
          in if 0 <s Size fInfo
             then (case snd (lines w1 os) of
                     Some err \<Rightarrow> (Some err, w1)
                   | None \<Rightarrow> (None, w1\<lparr>maxLinesCurLines := fst (lines w1 os)\<rparr>))
             else (None, w1)))"

text \<open>
  \<^verbatim>\<open>startLogger\<close>, file.go lines 84 to 110. The consumer it starts in asynchronous
  mode runs beside the caller: the model records that it was started.
\<close>

definition startLogger :: "state \<Rightarrow> error option \<times> state" where
  "startLogger s =
     (case s of (w, os) \<Rightarrow>
        (case createLogFile w os of
           (Inl err, os1) \<Rightarrow> (Some (ErrOs err), (w, os1))
         | (Inr file, os1) \<Rightarrow>
            (let os2 = (if fileWriter w \<noteq> None then snd (CloseFile (fileWriter w) os1) else os1);
                 w1 = w\<lparr>fileWriter := Some file\<rparr>;
                 err = fst (initFd w1 os2);
                 w2 = snd (initFd w1 os2)
             in if err = None
                then (let w3 = w2\<lparr>status := 1\<rparr>
                      in (None, (w3, if asyncMsgChan w3 \<noteq> None then emit (EvGo Consumer) os2 else os2)))
                else (err, (w2, os2)))))"

subsection \<open>Construction\<close>

text \<open>
  \<^verbatim>\<open>NewDefaultFileBackend\<close>, file.go lines 50 to 81. \<open>newBackend\<close> is lines 55 to 73:
  the struct literal, the channels and the two derived names. A field the literal does
  not name has Go's zero value.
\<close>

definition newBackend :: "string \<Rightarrow> go_int list \<Rightarrow> FileBackend" where
  "newBackend filename asyncLen =
     (let w = \<lparr>status = 0, Filename = filename, fileWriter = None,
               MaxLines = 1000000, maxLinesCurLines = 0,
               MaxSize = push_bit 28 1, maxSizeCurSize = 0,
               Daily = True, MaxDays = 7, dailyOpenDate = 0,
               Rotate = True, Perm = 432, \<comment> \<open>0660, octal\<close>
               fileNameOnly = [], suffix = [],
               asyncMsgChan = None, asyncSignalChan = None\<rparr>;
          w = (case asyncLen of
                 [] \<Rightarrow> w
               | a # _ \<Rightarrow>
                  if 0 <s a
                  then w\<lparr>asyncMsgChan := Some \<lparr>ch_cap = a, ch_buf = [], ch_closed = False\<rparr>,
                         asyncSignalChan := Some False\<rparr>
                  else w);
          w = w\<lparr>suffix := Ext (Filename w)\<rparr>;
          w = w\<lparr>fileNameOnly := TrimSuffix (Filename w) (suffix w)\<rparr>
      in if suffix w = [] then w\<lparr>suffix := ''.log''\<rparr> else w)"

text \<open>Lines 74 to 78: the directory of the file is made when it is not there.\<close>

definition ensureDir :: "string \<Rightarrow> os_state \<Rightarrow> os_state" where
  "ensureDir filename os =
     (let p = fst (Split filename)
      in case Stat os p of
           Inl err \<Rightarrow> MkdirAll p os
         | Inr d \<Rightarrow> if \<not> IsDir d then MkdirAll p os else os)"

definition NewDefaultFileBackend ::
  "string \<Rightarrow> go_int list \<Rightarrow> os_state \<Rightarrow> (FileBackend option \<times> error option) \<times> os_state" where
  "NewDefaultFileBackend filename asyncLen os =
     (if length filename = 0 then ((None, Some ErrNoFilename), os)
      else
        (let w = newBackend filename asyncLen;
             os1 = ensureDir (Filename w) os;
             r = startLogger (w, os1)
         in ((Some (fst (snd r)), fst r), snd (snd r))))"

subsection \<open>Rotation\<close>

definition maxFileIndex :: nat where
  "maxFileIndex = 999"

text \<open>The candidate name of file.go line 265.\<close>

definition archiveName :: "FileBackend \<Rightarrow> go_time \<Rightarrow> nat \<Rightarrow> string" where
  "archiveName w modTime num =
     fileNameOnly w @ ''.'' @ Format_date modTime @ ''.'' @ Sprintf_03d num @ suffix w"

text \<open>
  The date stamp of the archive, in the words of the specification: the modification
  time of the active file when daily rotation is on and the record's day is not the day
  the file was opened, the record's time otherwise.
\<close>

definition archiveStamp :: "FileBackend \<Rightarrow> go_time \<Rightarrow> finfo \<Rightarrow> go_time" where
  "archiveStamp w logTime info =
     (if Daily w \<and> Day logTime \<noteq> dailyOpenDate w then ModTime info else logTime)"

text \<open>
  The loop of file.go lines 264 to 267, with its three variables \<open>num\<close>, \<open>fName\<close> and
  \<open>err\<close>; it returns the last two.
\<close>

function probe_loop ::
  "os_state \<Rightarrow> FileBackend \<Rightarrow> go_time \<Rightarrow> nat \<Rightarrow> string \<Rightarrow> os_error option \<Rightarrow> string \<times> os_error option" where
  "probe_loop os w modTime num fName err =
     (if err = None \<and> num \<le> maxFileIndex
      then probe_loop os w modTime (num + 1) (archiveName w modTime num)
             (case Lstat os (archiveName w modTime num) of Inl e \<Rightarrow> Some e | Inr info \<Rightarrow> None)
      else (fName, err))"
  by pat_completeness auto
termination
  by (relation "measure (\<lambda>(os, w, modTime, num, fName, err). Suc maxFileIndex - num)") auto

declare probe_loop.simps [simp del]

text \<open>
  \<^verbatim>\<open>doRotate\<close>, file.go lines 246 to 292. The retention sweep is started as a
  goroutine and not waited for: the model records the start and \<open>deleteOldLog\<close> below
  is the sweep itself.
\<close>

definition doRotate :: "go_time \<Rightarrow> state \<Rightarrow> error option \<times> state" where
  "doRotate logTime s =
     (case s of (w, os) \<Rightarrow>
        (case Lstat os (Filename w) of
           Inl err \<Rightarrow> (Some (ErrOs err), (w, os))
         | Inr info0 \<Rightarrow>
            (case (if Daily w \<and> Day logTime \<noteq> dailyOpenDate w
                   then (case Lstat os (Filename w) of
                           Inl err \<Rightarrow> Inl (ErrNoFreeNumber (Filename w))
                         | Inr info \<Rightarrow> Inr (ModTime info))
                   else Inr logTime) of
               Inl e \<Rightarrow> (Some e, (w, os))
             | Inr modTime \<Rightarrow>
                (let fName = fst (probe_loop os w modTime 1 [] None);
                     err = snd (probe_loop os w modTime 1 [] None)
                 in if err = None then (Some (ErrNoFreeNumber (Filename w)), (w, os))
                    else
                      (let os1 = snd (CloseFile (fileWriter w) os);
                           renameErr = fst (Rename (Filename w) fName os1);
                           os2 = snd (Rename (Filename w) fName os1);
                           startLoggerErr = fst (startLogger (w, os2));
                           w3 = fst (snd (startLogger (w, os2)));
                           os3 = emit (EvGo DeleteOldLog) (snd (snd (startLogger (w, os2))))
                       in case startLoggerErr of
                            Some e \<Rightarrow> (Some (ErrRotateStartLogger e), (w3, os3))
                          | None \<Rightarrow>
                             (case renameErr of
                                Some e \<Rightarrow> (Some (ErrRotate e), (w3, os3))
                              | None \<Rightarrow> (None, (w3, os3))))))))"

subsection \<open>The retention sweep\<close>

text \<open>
  The function handed to \<^verbatim>\<open>filepath.Walk\<close>, file.go lines 296 to 310: \<open>walkFn_body\<close> is
  the body, which panics when it calls a method on a nil \<^verbatim>\<open>info\<close>; \<open>walkFn\<close> adds the
  deferred \<^verbatim>\<open>recover\<close> and the named result \<^verbatim>\<open>returnErr\<close>, which is never assigned
  and so is nil on both ways out.
\<close>

definition walkFn_body ::
  "FileBackend \<Rightarrow> string \<Rightarrow> finfo option \<Rightarrow> os_error option \<Rightarrow> os_state \<Rightarrow> panic + os_state" where
  "walkFn_body w path info err os =
     (case info of
        None \<Rightarrow> Inl NilPointerDereference
      | Some i \<Rightarrow>
         Inr (if \<not> IsDir i \<and> Unix (ModTime i) <s Unix (now os) - 60 * 60 * 24 * MaxDays w
              then (if HasPrefix (Base path) (fileNameOnly w) \<and> HasSuffix (Base path) (suffix w)
                    then snd (Remove path os)
                    else os)
              else os))"

definition walkFn ::
  "FileBackend \<Rightarrow> string \<Rightarrow> finfo option \<Rightarrow> os_error option \<Rightarrow> os_state
     \<Rightarrow> error option \<times> os_state" where
  "walkFn w path info err os =
     (let returnErr = None
      in case walkFn_body w path info err os of
           Inl r \<Rightarrow> (returnErr, emit (EvStderr (DiagDelete path r)) os)
         | Inr os' \<Rightarrow> (returnErr, os'))"

text \<open>
  \<^verbatim>\<open>filepath.Walk\<close> calls the function once for each entry it visits, with the entry's
  path, its \<^verbatim>\<open>FileInfo\<close> (nil when the entry could not be examined) and the error, and
  stops at the first call that returns an error. \<open>entries\<close> are the visits an
  uninterrupted walk makes, in order.
\<close>

type_synonym walk_entry = "string \<times> finfo option \<times> os_error option"

fun Walk ::
  "(string \<Rightarrow> finfo option \<Rightarrow> os_error option \<Rightarrow> os_state \<Rightarrow> error option \<times> os_state)
     \<Rightarrow> walk_entry list \<Rightarrow> os_state \<Rightarrow> error option \<times> os_state" where
  "Walk fn [] os = (None, os)"
| "Walk fn ((path, info, err) # entries) os =
     (case fst (fn path info err os) of
        Some e \<Rightarrow> (Some e, snd (fn path info err os))
      | None \<Rightarrow> Walk fn entries (snd (fn path info err os)))"

text \<open>\<^verbatim>\<open>deleteOldLog\<close>, file.go lines 294 to 311; the result of the walk is discarded.\<close>

definition deleteOldLog :: "FileBackend \<Rightarrow> walk_entry list \<Rightarrow> os_state \<Rightarrow> os_state" where
  "deleteOldLog w entries os = snd (Walk (walkFn w) entries os)"

text \<open>
  The test of file.go lines 303 to 305 as one predicate, exactly as the code makes it:
  the name of the entry, which has no directory, is compared with \<open>fileNameOnly\<close>,
  which keeps the directory of the filename.
\<close>

definition sweepMatches :: "FileBackend \<Rightarrow> go_time \<Rightarrow> string \<Rightarrow> finfo \<Rightarrow> bool" where
  "sweepMatches w t path i =
     (\<not> IsDir i \<and>
      HasPrefix (Base path) (fileNameOnly w) \<and> HasSuffix (Base path) (suffix w) \<and>
      sint (Unix (ModTime i)) < sint (Unix t - 60 * 60 * 24 * MaxDays w))"

text \<open>
  The entries the specification has the sweep delete: not a directory, the name of the
  entry starts with the name of the base and ends with the suffix (the names of the
  archives \<open>base.date.NNN suffix\<close> that rotation makes beside the active file), and the
  modification time is before now minus \<open>MaxDays\<close> days.
\<close>

definition sweepDue :: "FileBackend \<Rightarrow> go_time \<Rightarrow> string \<Rightarrow> finfo \<Rightarrow> bool" where
  "sweepDue w t path i =
     (\<not> IsDir i \<and>
      HasPrefix (Base path) (Base (fileNameOnly w)) \<and> HasSuffix (Base path) (suffix w) \<and>
      sint (Unix (ModTime i)) < sint (Unix t) - 86400 * sint (MaxDays w))"

text \<open>What one visit adds to the trace: a removal, a report of the panic, or nothing.\<close>

definition visitEvents :: "FileBackend \<Rightarrow> go_time \<Rightarrow> walk_entry \<Rightarrow> event list" where
  "visitEvents w t entry =
     (case entry of (path, info, err) \<Rightarrow>
        (case info of
           None \<Rightarrow> [EvStderr (DiagDelete path NilPointerDereference)]
         | Some i \<Rightarrow> if sweepMatches w t path i then [EvRemove path] else []))"

subsection \<open>Logging a record\<close>

text \<open>
  \<^verbatim>\<open>colorRegexp\<close>, file.go line 119: escape, an opening bracket, one or two digits,
  the letter m. \<open>matchColor\<close> matches the expression at the head of the bytes and
  returns the bytes after the match; a digit is never the letter m, so at most one of
  the two lengths matches.
\<close>

definition isDigit :: "char \<Rightarrow> bool" where
  "isDigit c = (c \<in> set ''0123456789'')"

fun matchColor :: "string \<Rightarrow> string option" where
  "matchColor (e # b # d # m # r) =
     (if e = CHR 0x1B \<and> b = CHR ''['' \<and> isDigit d
      then (if m = CHR ''m'' then Some r
            else (case r of
                    [] \<Rightarrow> None
                  | m2 # r2 \<Rightarrow> if isDigit m \<and> m2 = CHR ''m'' then Some r2 else None))
      else None)"
| "matchColor s = None"

text \<open>
  \<^verbatim>\<open>colorRegexp.ReplaceAll(msg, []byte{})\<close>: the matches are found from left to right,
  each search starting after the previous match, and are deleted.
\<close>

function stripColor :: "string \<Rightarrow> string" where
  "stripColor [] = []"
| "stripColor (c # cs) =
     (case matchColor (c # cs) of
        Some r \<Rightarrow> stripColor r
      | None \<Rightarrow> c # stripColor cs)"
  by pat_completeness auto
termination
proof (relation "measure length")
  show "wf (measure length)" by simp
next
  fix c cs r
  assume m: "matchColor (c # cs) = Some r"
  have "matchColor s = Some r \<Longrightarrow> length r < length s" for s
    by (induction s rule: matchColor.induct) (auto split: if_splits list.splits)
  with m show "(r, c # cs) \<in> measure length" by fastforce
next
  fix c :: char and cs
  show "(cs, c # cs) \<in> measure length" by simp
qed

text \<open>
  The sequences the pattern describes, in the words of the specification: escape,
  bracket, one or two digits, m.
\<close>

fun isColorSeq :: "string \<Rightarrow> bool" where
  "isColorSeq [e, b, d, m] = (e = CHR 0x1B \<and> b = CHR ''['' \<and> isDigit d \<and> m = CHR ''m'')"
| "isColorSeq [e, b, d1, d2, m] =
     (e = CHR 0x1B \<and> b = CHR ''['' \<and> isDigit d1 \<and> isDigit d2 \<and> m = CHR ''m'')"
| "isColorSeq s = False"

text \<open>
  The record of the logging package, as far as the backend uses it: the rendering
  \<^verbatim>\<open>Formatted(calldepth, color)\<close> and the time stamp.
\<close>

record Record =
  Formatted :: "go_int \<Rightarrow> bool \<Rightarrow> string"
  Time :: go_time

text \<open>
  \<^verbatim>\<open>w.asyncMsgChan <- msg\<close>. The consumer receives beside the sender; the model keeps
  the messages sent and not yet received, and does not make the sender wait.
\<close>

definition send :: "string \<Rightarrow> msg_chan \<Rightarrow> state \<Rightarrow> panic + state" where
  "send msg ch s =
     (case s of (w, os) \<Rightarrow>
        if ch_closed ch then Inl SendOnClosedChannel
        else Inr (w\<lparr>asyncMsgChan := Some (ch\<lparr>ch_buf := ch_buf ch @ [msg]\<rparr>)\<rparr>, os))"

text \<open>
  The rotation step of \<^verbatim>\<open>Log\<close>, file.go lines 133 to 143, with its check made twice,
  before and after the lock is taken.
\<close>

definition rotateIfNeeded :: "string \<Rightarrow> go_time \<Rightarrow> state \<Rightarrow> state" where
  "rotateIfNeeded msg t s =
     (case s of (w, os) \<Rightarrow>
        if Rotate w
        then (if needRotate w (len msg) (Day t)
              then (if needRotate w (len msg) (Day t)
                    then (case fst (doRotate t (w, os)) of
                            Some err \<Rightarrow>
                              (fst (snd (doRotate t (w, os))),
                               emit (EvStderr (DiagRotate (Filename w) err)) (snd (snd (doRotate t (w, os)))))
                          | None \<Rightarrow> snd (doRotate t (w, os)))
                    else (w, os))
              else (w, os))
        else (w, os))"

text \<open>
  \<^verbatim>\<open>Log\<close>, file.go lines 122 to 150. Line 129 reads \<^verbatim>\<open>msg[len(msg)-1]\<close>, which panics
  on an empty slice.
\<close>

definition Log :: "go_int \<Rightarrow> Record \<Rightarrow> state \<Rightarrow> panic + state" where
  "Log calldepth rec s =
     (case s of (w, os) \<Rightarrow>
        if status w = 0 then Inr (w, os)
        else
          (let msg = stripColor (Formatted rec (calldepth + 1) False)
           in if msg = [] then Inl IndexOutOfRange
              else
                (let msg = (if last msg \<noteq> CHR 0x0A then msg @ [CHR 0x0A] else msg);
                     s1 = rotateIfNeeded msg (Time rec) (w, os)
                 in case asyncMsgChan (fst s1) of
                      Some ch \<Rightarrow> send msg ch s1
                    | None \<Rightarrow> Inr (write_msg msg s1))))"

subsection \<open>Closing\<close>

text \<open>The loop of file.go lines 169 to 171: every message left in the channel is written.\<close>

fun drain :: "string list \<Rightarrow> state \<Rightarrow> state" where
  "drain [] s = s"
| "drain (msg # msgs) s = drain msgs (write_msg msg s)"

text \<open>
  \<^verbatim>\<open>Close\<close>, file.go lines 157 to 175. The signal is received by the consumer, which
  then stops; closing a nil or a closed channel panics.
\<close>

definition Close :: "state \<Rightarrow> panic + state" where
  "Close s =
     (case s of (w, os) \<Rightarrow>
        if status w = 0 then Inr (w, os)
        else
          (let w1 = w\<lparr>status := 0\<rparr>
           in case (case asyncSignalChan w1 of
                      None \<Rightarrow> Inr (w1, os)
                    | Some closed \<Rightarrow>
                       if closed then Inl SendOnClosedChannel
                       else (case asyncMsgChan w1 of
                               None \<Rightarrow> Inl CloseOfNilChannel
                             | Some ch \<Rightarrow>
                                if ch_closed ch then Inl CloseOfClosedChannel
                                else Inr (drain (ch_buf ch)
                                            (w1\<lparr>asyncSignalChan := Some True,
                                                asyncMsgChan := Some (ch\<lparr>ch_buf := [], ch_closed := True\<rparr>)\<rparr>,
                                             os)))) of
                Inl p \<Rightarrow> Inl p
              | Inr (w2, os2) \<Rightarrow>
                 Inr (w2, snd (CloseFile (fileWriter w2) (snd (SyncFile (fileWriter w2) os2))))))"

text \<open>
  The channels as the constructor leaves them: either both absent, or both made and
  neither closed.
\<close>

definition chans_open :: "FileBackend \<Rightarrow> bool" where
  "chans_open w =
     (case asyncSignalChan w of
        None \<Rightarrow> asyncMsgChan w = None
      | Some closed \<Rightarrow>
         \<not> closed \<and> (case asyncMsgChan w of None \<Rightarrow> False | Some ch \<Rightarrow> \<not> ch_closed ch))"

text \<open>
  The messages \<open>Close\<close> has to write, in the words of the specification: those still
  in the queue when asynchronous mode is active.
\<close>

definition pending :: "FileBackend \<Rightarrow> string list" where
  "pending w =
     (case asyncSignalChan w of
        None \<Rightarrow> []
      | Some closed \<Rightarrow> (case asyncMsgChan w of None \<Rightarrow> [] | Some ch \<Rightarrow> ch_buf ch))"

text \<open>The events that are calls of the system, as opposed to lines on standard error.\<close>

definition notStderr :: "event \<Rightarrow> bool" where
  "notStderr e = (case e of EvStderr d \<Rightarrow> False | _ \<Rightarrow> True)"

subsection \<open>Sample states\<close>

text \<open>
  A backend on \<^verbatim>\<open>app.log\<close>, opened on the 14th with one line of seven bytes in the
  file, and a system whose clock has moved to the 15th.
\<close>

definition day14 :: go_time where
  "day14 = \<lparr>Unix = 1699963200, Year = 2023, Month = 11, Day = 14\<rparr>"

definition day15 :: go_time where
  "day15 = \<lparr>Unix = 1700049600, Year = 2023, Month = 11, Day = 15\<rparr>"

definition sample_file :: finfo where
  "sample_file = \<lparr>IsDir = False, ModTime = day14, Data = ''a line'' @ [CHR 0x0A]\<rparr>"

definition sample_os :: os_state where
  "sample_os =
     \<lparr>files = [''app.log'' \<mapsto> sample_file],
      fds = [3 \<mapsto> ''app.log''],
      next_fd = 4,
      now = day15,
      fault = (\<lambda>c. None),
      trace = []\<rparr>"

definition sample_backend :: FileBackend where
  "sample_backend =
     (newBackend ''app.log'' [])
       \<lparr>status := 1, fileWriter := Some 3, maxLinesCurLines := 1, maxSizeCurSize := 7,
        dailyOpenDate := 14\<rparr>"

text \<open>The same system with some system calls failing.\<close>

definition failing_os :: "syscall list \<Rightarrow> os_state" where
  "failing_os cs = sample_os\<lparr>fault := (\<lambda>c. if c \<in> set cs then Some EACCES else None)\<rparr>"

text \<open>A system in which every name that starts with \<^verbatim>\<open>app.\<close> is taken.\<close>

definition crowded_os :: os_state where
  "crowded_os = sample_os\<lparr>files := (\<lambda>p. if HasPrefix p ''app.'' then Some sample_file else None)\<rparr>"

text \<open>Two colour sequences, and a record that renders to a given text.\<close>

definition esc_reset :: string where
  "esc_reset = CHR 0x1B # ''[0m''"

definition esc_red :: string where
  "esc_red = CHR 0x1B # ''[31m''"

definition sample_record :: "string \<Rightarrow> Record" where
  "sample_record text = \<lparr>Formatted = (\<lambda>calldepth color. text), Time = day15\<rparr>"

text \<open>
  A directory for the sweep with files ten days, one day and thirty days old (the sweep
  reads the seconds only), and a walk over it that could not examine its first entry.
\<close>

definition aged :: "int64 \<Rightarrow> finfo" where
  "aged days = \<lparr>IsDir = False, ModTime = day15\<lparr>Unix := Unix day15 - 86400 * days\<rparr>, Data = ''x''\<rparr>"

definition sweep_os :: os_state where
  "sweep_os =
     sample_os\<lparr>files := [''app.2023-11-05.001.log'' \<mapsto> aged 10,
                          ''app.2023-11-14.001.log'' \<mapsto> aged 1,
                          ''app.2023-10-16.001.txt'' \<mapsto> aged 30,
                          ''app.log'' \<mapsto> sample_file]\<rparr>"

definition sweep_entries :: "walk_entry list" where
  "sweep_entries =
     [(''gone'', None, Some ENOENT),
      (''app.2023-10-16.001.txt'', Some (aged 30), None),
      (''app.2023-11-05.001.log'', Some (aged 10), None),
      (''app.2023-11-14.001.log'', Some (aged 1), None),
      (''app.log'', Some sample_file, None)]"

text \<open>
  A backend on \<^verbatim>\<open>logs/app.log\<close>, the system it runs on, and the same directory a month
  later, with the archive that rotation made on the 15th.
\<close>

definition dir_backend :: FileBackend where
  "dir_backend =
     (newBackend ''logs/app.log'' [])
       \<lparr>status := 1, fileWriter := Some 3, maxLinesCurLines := 1, maxSizeCurSize := 7,
        dailyOpenDate := 14\<rparr>"

definition logs_dir :: finfo where
  "logs_dir = \<lparr>IsDir = True, ModTime = day14, Data = []\<rparr>"

definition dir_os :: os_state where
  "dir_os =
     sample_os\<lparr>files := [''logs'' \<mapsto> logs_dir, ''logs/app.log'' \<mapsto> sample_file],
               fds := [3 \<mapsto> ''logs/app.log'']\<rparr>"

definition month_later :: go_time where
  "month_later = \<lparr>Unix = Unix day15 + 86400 * 30, Year = 2023, Month = 12, Day = 15\<rparr>"

definition late_os :: os_state where
  "late_os =
     sample_os\<lparr>files := [''logs'' \<mapsto> logs_dir,
                         ''logs/app.2023-11-14.001.log'' \<mapsto> sample_file,
                         ''logs/app.log'' \<mapsto> aged 0],
               fds := [4 \<mapsto> ''logs/app.log''],
               now := month_later\<rparr>"

definition late_entries :: "walk_entry list" where
  "late_entries =
     [(''logs'', Some logs_dir, None),
      (''logs/app.2023-11-14.001.log'', Some sample_file, None),
      (''logs/app.log'', Some (aged 0), None)]"

text \<open>An asynchronous backend with two messages waiting in the queue.\<close>

definition async_backend :: FileBackend where
  "async_backend =
     sample_backend
       \<lparr>asyncMsgChan := Some \<lparr>ch_cap = 8,
                               ch_buf = [''one'' @ [CHR 0x0A], ''two'' @ [CHR 0x0A]],
                               ch_closed = False\<rparr>,
        asyncSignalChan := Some False\<rparr>"

section \<open>Properties\<close>

text \<open>
  C1. \<open>needRotate\<close> is true exactly when the line limit is set and reached, or the size
  limit is set and reached by the bytes already counted, or daily rotation is on and the
  day differs from the day the file was opened; the size of the incoming message plays
  no part.
\<close>

theorem needRotate_iff:
  "needRotate w incomingSize currentDay =
     ((sint (MaxLines w) > 0 \<and> sint (maxLinesCurLines w) \<ge> sint (MaxLines w)) \<or>
      (sint (MaxSize w) > 0 \<and> sint (maxSizeCurSize w) \<ge> sint (MaxSize w)) \<or>
      (Daily w \<and> currentDay \<noteq> dailyOpenDate w))
   \<and> needRotate w incomingSize currentDay = needRotate w otherSize currentDay"
  by (simp add: needRotate_def word_sless_alt word_sle_eq)

theorem needRotate_iff_witness:
  "needRotate sample_backend 3 15 \<and> \<not> needRotate sample_backend 3 14 \<and>
   needRotate sample_backend 3 15 = needRotate sample_backend 1000000000 15"
  using needRotate_iff [of sample_backend 3 15 1000000000] needRotate_iff [of sample_backend 3 14 0]
  by (auto simp: sample_backend_def newBackend_def Let_def Ext_def TrimSuffix_def HasSuffix_def)

subsection \<open>Signed readings of 64-bit arithmetic\<close>

lemma sint_in_range:
  "- (2 ^ 63) \<le> k \<Longrightarrow> k < 2 ^ 63 \<Longrightarrow> sint (word_of_int k :: 64 word) = k"
  by (simp add: sint_sbintrunc' signed_take_bit_int_eq_self)

lemma sint_succ: "sint (x :: 64 word) < 2 ^ 63 - 1 \<Longrightarrow> sint (x + 1) = sint x + 1"
  using sint_ge [of x] by (simp add: sint_word_ariths signed_take_bit_int_eq_self)

lemma sint_add_len:
  assumes "sint (x :: 64 word) + int (length msg) < 2 ^ 63"
  shows "sint (x + len msg) = sint x + int (length msg)"
proof -
  have "x + len msg = word_of_int (sint x + int (length msg))"
    by (simp add: len_def)
  moreover have "- (2 ^ 63) \<le> sint x + int (length msg)"
    using sint_ge [of x] by simp
  ultimately show ?thesis using assms by (simp only: sint_in_range)
qed

lemma sint_sub_mul:
  assumes "- (2 ^ 63) \<le> sint a - 86400 * sint m" "sint a - 86400 * sint m < 2 ^ 63"
  shows "sint ((a :: 64 word) - 60 * 60 * 24 * m) = sint a - 86400 * sint m"
proof -
  have "a - 60 * 60 * 24 * m = word_of_int (sint a - 86400 * sint m)"
    by simp
  then show ?thesis using assms by (simp only: sint_in_range)
qed

subsection \<open>Writing\<close>

lemma WriteFile_trace:
  "trace (snd (WriteFile fw b os)) = trace os @ [EvWrite fw b]"
  by (simp add: WriteFile_def emit_def Let_def split: option.splits)

lemma write_msg_trace_exact:
  "trace (snd (write_msg m (w, os))) =
     trace os @ EvWrite (fileWriter w) m #
       (case fst (WriteFile (fileWriter w) m os) of None \<Rightarrow> [] | Some e \<Rightarrow> [EvStderr (DiagWrite m e)])"
proof (cases "WriteFile (fileWriter w) m os")
  case (Pair r os1)
  have "trace os1 = trace os @ [EvWrite (fileWriter w) m]"
    using WriteFile_trace [of "fileWriter w" m os] Pair by simp
  with Pair show ?thesis
    by (cases r) (simp_all add: write_msg_def emit_def)
qed

text \<open>
  C4. A write either succeeds, and then the line counter has grown by one and the byte
  counter by the length of the message (in Go's 64-bit arithmetic, and as integers
  whenever the sums fit), or it fails, and then the backend is exactly as before and the
  error is printed. In both cases the descriptor is written to once: there is no second
  attempt.
\<close>

theorem write_counters:
  "\<exists>w' os'. write_msg msg (w, os) = (w', os') \<and>
     ((fst (WriteFile (fileWriter w) msg os) = None \<and>
       maxLinesCurLines w' = maxLinesCurLines w + 1 \<and>
       maxSizeCurSize w' = maxSizeCurSize w + len msg \<and>
       (sint (maxLinesCurLines w) < 2 ^ 63 - 1 \<longrightarrow>
          sint (maxLinesCurLines w') = sint (maxLinesCurLines w) + 1) \<and>
       (sint (maxSizeCurSize w) + int (length msg) < 2 ^ 63 \<longrightarrow>
          sint (maxSizeCurSize w') = sint (maxSizeCurSize w) + int (length msg)) \<and>
       trace os' = trace os @ [EvWrite (fileWriter w) msg])
      \<or>
      (\<exists>err. fst (WriteFile (fileWriter w) msg os) = Some err \<and>
         w' = w \<and>
         trace os' = trace os @ [EvWrite (fileWriter w) msg, EvStderr (DiagWrite msg err)]))"
proof (cases "WriteFile (fileWriter w) msg os")
  case (Pair r os1)
  have t: "trace os1 = trace os @ [EvWrite (fileWriter w) msg]"
    using WriteFile_trace [of "fileWriter w" msg os] Pair by simp
  show ?thesis
  proof (cases r)
    case None
    with Pair t show ?thesis
      by (simp add: write_msg_def sint_succ sint_add_len)
  next
    case (Some err)
    with Pair t show ?thesis by (simp add: write_msg_def emit_def)
  qed
qed

theorem write_counters_witness:
  "sint (maxLinesCurLines (fst (write_msg ''ab'' (sample_backend, sample_os)))) = 2 \<and>
   sint (maxSizeCurSize (fst (write_msg ''ab'' (sample_backend, sample_os)))) = 9 \<and>
   trace (snd (write_msg ''ab'' (sample_backend, sample_os))) = [EvWrite (Some 3) ''ab'']"
proof -
  have ok: "fst (WriteFile (fileWriter sample_backend) ''ab'' sample_os) = None"
    by code_simp
  have v: "sint (maxLinesCurLines sample_backend) = 1" "sint (maxSizeCurSize sample_backend) = 7"
    "fileWriter sample_backend = Some 3" "trace sample_os = []"
    by (simp_all add: sample_backend_def sample_os_def)
  from write_counters [of "''ab''" sample_backend sample_os] ok v
  show ?thesis by auto
qed

subsection \<open>Closing\<close>

lemma SyncFile_trace: "trace (snd (SyncFile fw os)) = trace os @ [EvSync fw]"
  by (simp add: SyncFile_def emit_def Let_def split: option.splits)

lemma CloseFile_trace: "trace (snd (CloseFile fw os)) = trace os @ [EvClose fw]"
  by (simp add: CloseFile_def emit_def Let_def split: option.splits)

lemma CloseFile_files: "files (snd (CloseFile fw os)) = files os"
  by (simp add: CloseFile_def emit_def Let_def split: option.splits)

lemma write_msg_fields:
  "status (fst (write_msg m s)) = status (fst s)"
  "fileWriter (fst (write_msg m s)) = fileWriter (fst s)"
  "asyncMsgChan (fst (write_msg m s)) = asyncMsgChan (fst s)"
  "asyncSignalChan (fst (write_msg m s)) = asyncSignalChan (fst s)"
  by (simp_all add: write_msg_def split: prod.splits option.splits)

lemma write_msg_trace: "\<exists>evs. trace (snd (write_msg m s)) = trace (snd s) @ evs"
proof (cases s)
  case (Pair w os)
  show ?thesis
  proof (cases "WriteFile (fileWriter w) m os")
    case (Pair r os1)
    have "trace os1 = trace os @ [EvWrite (fileWriter w) m]"
      using WriteFile_trace [of "fileWriter w" m os] Pair by simp
    with Pair \<open>s = (w, os)\<close> show ?thesis
      by (cases r) (simp_all add: write_msg_def emit_def)
  qed
qed

lemma drain_fields:
  "status (fst (drain ms s)) = status (fst s)"
  "fileWriter (fst (drain ms s)) = fileWriter (fst s)"
  "asyncMsgChan (fst (drain ms s)) = asyncMsgChan (fst s)"
  "asyncSignalChan (fst (drain ms s)) = asyncSignalChan (fst s)"
  by (induction ms arbitrary: s; simp add: write_msg_fields)+

lemma drain_trace: "\<exists>evs. trace (snd (drain ms s)) = trace (snd s) @ evs"
proof (induction ms arbitrary: s)
  case Nil
  then show ?case by simp
next
  case (Cons m ms)
  obtain e1 where e1: "trace (snd (write_msg m s)) = trace (snd s) @ e1"
    using write_msg_trace by blast
  obtain e2 where "trace (snd (drain ms (write_msg m s))) = trace (snd (write_msg m s)) @ e2"
    using Cons.IH by blast
  with e1 show ?case by simp
qed

lemma Close_closed: "status w = 0 \<Longrightarrow> Close (w, os) = Inr (w, os)"
  by (simp add: Close_def)

lemma Close_running_returns:
  assumes "status w \<noteq> 0" "chans_open w"
  shows "\<exists>s'. Close (w, os) = Inr s'"
proof (cases "asyncSignalChan w")
  case None
  with assms show ?thesis by (simp add: Close_def Let_def)
next
  case (Some closed)
  with assms obtain ch where "asyncMsgChan w = Some ch" "\<not> ch_closed ch" "\<not> closed"
    by (auto simp: chans_open_def split: option.splits)
  with assms Some show ?thesis by (simp add: Close_def Let_def split: prod.splits)
qed

lemma drain_writes:
  "\<exists>evs. trace (snd (drain ms (w, os))) = trace os @ evs \<and>
         filter notStderr evs = map (EvWrite (fileWriter w)) ms \<and>
         (\<forall>e \<in> set evs. (\<exists>m. e = EvWrite (fileWriter w) m) \<or> (\<exists>m err. e = EvStderr (DiagWrite m err)))"
proof (induction ms arbitrary: w os)
  case Nil
  then show ?case by simp
next
  case (Cons m ms)
  define post where "post =
     (case fst (WriteFile (fileWriter w) m os) of None \<Rightarrow> [] | Some e \<Rightarrow> [EvStderr (DiagWrite m e)])"
  obtain w1 os1 where s1: "write_msg m (w, os) = (w1, os1)" by (cases "write_msg m (w, os)")
  have fw: "fileWriter w1 = fileWriter w"
    using write_msg_fields(2) [of m "(w, os)"] s1 by simp
  have t1: "trace os1 = trace os @ EvWrite (fileWriter w) m # post"
    using write_msg_trace_exact [of m w os] s1 by (simp add: post_def)
  have p: "filter notStderr post = []"
    "\<forall>e \<in> set post. \<exists>m err. e = EvStderr (DiagWrite m err)"
    by (auto simp: post_def notStderr_def split: option.splits)
  obtain evs where evs: "trace (snd (drain ms (w1, os1))) = trace os1 @ evs"
    "filter notStderr evs = map (EvWrite (fileWriter w1)) ms"
    "\<forall>e \<in> set evs. (\<exists>m. e = EvWrite (fileWriter w1) m) \<or> (\<exists>m err. e = EvStderr (DiagWrite m err))"
    using Cons.IH [of w1 os1] by blast
  have "trace (snd (drain (m # ms) (w, os))) = trace os @ (EvWrite (fileWriter w) m # post @ evs)"
    using s1 t1 evs(1) by simp
  moreover have "filter notStderr (EvWrite (fileWriter w) m # post @ evs)
      = map (EvWrite (fileWriter w)) (m # ms)"
    using p(1) evs(2) fw by (simp add: notStderr_def)
  moreover have "\<forall>e \<in> set (EvWrite (fileWriter w) m # post @ evs).
      (\<exists>m. e = EvWrite (fileWriter w) m) \<or> (\<exists>m err. e = EvStderr (DiagWrite m err))"
    using p(2) evs(3) fw by auto
  ultimately show ?case by blast
qed

lemma write_msg_ok:
  assumes "fault os SysWrite = None" "fileWriter w = Some fd" "fds os fd = Some p" "files os p = Some f"
  shows "fault (snd (write_msg m (w, os))) = fault os"
    "fds (snd (write_msg m (w, os))) = fds os"
    "\<exists>f'. files (snd (write_msg m (w, os))) p = Some f' \<and> Data f' = Data f @ m"
    "fileWriter (fst (write_msg m (w, os))) = Some fd"
  using assms by (simp_all add: write_msg_def WriteFile_def emit_def Let_def)

lemma drain_data:
  assumes "fault os SysWrite = None" "fileWriter w = Some fd" "fds os fd = Some p" "files os p = Some f"
  shows "(\<exists>f'. files (snd (drain ms (w, os))) p = Some f' \<and> Data f' = Data f @ concat ms) \<and>
         fds (snd (drain ms (w, os))) = fds os"
  using assms
proof (induction ms arbitrary: w os f)
  case Nil
  then show ?case by simp
next
  case (Cons m ms)
  obtain w1 os1 where s1: "write_msg m (w, os) = (w1, os1)" by (cases "write_msg m (w, os)")
  note ok = write_msg_ok [OF Cons.prems, of m]
  from ok(3) s1 obtain f1 where f1: "files os1 p = Some f1" "Data f1 = Data f @ m" by auto
  have pre: "fault os1 SysWrite = None" "fileWriter w1 = Some fd" "fds os1 fd = Some p"
    using ok(1,2,4) s1 Cons.prems by simp_all
  have "(\<exists>f'. files (snd (drain ms (w1, os1))) p = Some f' \<and> Data f' = Data f1 @ concat ms) \<and>
         fds (snd (drain ms (w1, os1))) = fds os1"
    by (rule Cons.IH [OF pre f1(1)])
  with f1 s1 ok(2) show ?case by simp
qed

lemma SyncFile_files: "files (snd (SyncFile fw os)) = files os"
  by (simp add: SyncFile_def emit_def Let_def split: option.splits)

lemma SyncFile_fds: "fds (snd (SyncFile fw os)) = fds os"
  by (simp add: SyncFile_def emit_def Let_def split: option.splits)

lemma CloseFile_fds: "fds (snd (CloseFile (Some fd) os)) fd = None"
  by (simp add: CloseFile_def emit_def Let_def split: option.splits)

lemma Close_running_unfold:
  assumes run: "status w \<noteq> 0" and res: "Close (w, os) = Inr (w', os')"
  shows "\<exists>w0. (w0 = w\<lparr>status := 0\<rparr> \<and> asyncSignalChan w = None \<or>
               (\<exists>ch. asyncSignalChan w = Some False \<and> asyncMsgChan w = Some ch \<and> \<not> ch_closed ch \<and>
                  w0 = w\<lparr>status := 0, asyncSignalChan := Some True,
                         asyncMsgChan := Some (ch\<lparr>ch_buf := [], ch_closed := True\<rparr>)\<rparr>)) \<and>
          w' = fst (drain (pending w) (w0, os)) \<and>
          os' = snd (CloseFile (fileWriter w)
                  (snd (SyncFile (fileWriter w) (snd (drain (pending w) (w0, os))))))"
proof (cases "asyncSignalChan w")
  case None
  with run res show ?thesis
    by (auto simp: Close_def Let_def pending_def)
next
  case (Some closed)
  with run res obtain ch where ch: "asyncMsgChan w = Some ch" "\<not> ch_closed ch" "\<not> closed"
    by (auto simp: Close_def Let_def split: option.splits if_splits)
  define w0 where "w0 = w\<lparr>status := 0, asyncSignalChan := Some True,
                asyncMsgChan := Some (ch\<lparr>ch_buf := [], ch_closed := True\<rparr>)\<rparr>"
  have pd: "pending w = ch_buf ch" using Some ch by (simp add: pending_def)
  have fw: "fileWriter (fst (drain (ch_buf ch) (w0, os))) = fileWriter w"
    by (simp add: drain_fields w0_def)
  have "Close (w, os) =
     Inr (fst (drain (ch_buf ch) (w0, os)),
          snd (CloseFile (fileWriter (fst (drain (ch_buf ch) (w0, os))))
                 (snd (SyncFile (fileWriter (fst (drain (ch_buf ch) (w0, os))))
                    (snd (drain (ch_buf ch) (w0, os)))))))"
    using run Some ch by (simp add: Close_def Let_def w0_def split: prod.splits)
  with res have "w' = fst (drain (pending w) (w0, os))"
    "os' = snd (CloseFile (fileWriter w)
                  (snd (SyncFile (fileWriter w) (snd (drain (pending w) (w0, os))))))"
    unfolding fw pd by auto
  moreover have "asyncSignalChan w = Some False" using Some ch by simp
  ultimately show ?thesis using ch w0_def by blast
qed

lemma Close_running_full:
  assumes run: "status w \<noteq> 0" and res: "Close (w, os) = Inr (w', os')"
  shows "status w' = 0"
    "\<exists>evs. trace os' = trace os @ evs @ [EvSync (fileWriter w), EvClose (fileWriter w)] \<and>
           filter notStderr evs = map (EvWrite (fileWriter w)) (pending w) \<and>
           (\<forall>e \<in> set evs. (\<exists>m. e = EvWrite (fileWriter w) m) \<or> (\<exists>m err. e = EvStderr (DiagWrite m err)))"
    "asyncSignalChan w \<noteq> None \<longrightarrow>
       asyncSignalChan w' = Some True \<and>
       (\<exists>ch. asyncMsgChan w' = Some ch \<and> ch_buf ch = [] \<and> ch_closed ch)"
    "\<forall>fd p f. fault os SysWrite = None \<and> fileWriter w = Some fd \<and> fds os fd = Some p \<and>
        files os p = Some f \<longrightarrow>
          (\<exists>f'. files os' p = Some f' \<and> Data f' = Data f @ concat (pending w)) \<and> fds os' fd = None"
proof -
  from Close_running_unfold [OF run res] obtain w0 where
    w0: "w0 = w\<lparr>status := 0\<rparr> \<and> asyncSignalChan w = None \<or>
               (\<exists>ch. asyncSignalChan w = Some False \<and> asyncMsgChan w = Some ch \<and> \<not> ch_closed ch \<and>
                  w0 = w\<lparr>status := 0, asyncSignalChan := Some True,
                         asyncMsgChan := Some (ch\<lparr>ch_buf := [], ch_closed := True\<rparr>)\<rparr>)"
    and w': "w' = fst (drain (pending w) (w0, os))"
    and os': "os' = snd (CloseFile (fileWriter w)
                  (snd (SyncFile (fileWriter w) (snd (drain (pending w) (w0, os))))))"
    by blast
  have f0: "status w0 = 0" "fileWriter w0 = fileWriter w" using w0 by auto
  show "status w' = 0" by (simp add: w' drain_fields f0)
  obtain evs where evs: "trace (snd (drain (pending w) (w0, os))) = trace os @ evs"
    "filter notStderr evs = map (EvWrite (fileWriter w0)) (pending w)"
    "\<forall>e \<in> set evs. (\<exists>m. e = EvWrite (fileWriter w0) m) \<or> (\<exists>m err. e = EvStderr (DiagWrite m err))"
    using drain_writes [of "pending w" w0 os] by blast
  have "trace os' = trace os @ evs @ [EvSync (fileWriter w), EvClose (fileWriter w)]"
    by (simp add: os' SyncFile_trace CloseFile_trace evs(1))
  with evs(2,3) show "\<exists>evs. trace os' = trace os @ evs @ [EvSync (fileWriter w), EvClose (fileWriter w)] \<and>
           filter notStderr evs = map (EvWrite (fileWriter w)) (pending w) \<and>
           (\<forall>e \<in> set evs. (\<exists>m. e = EvWrite (fileWriter w) m) \<or> (\<exists>m err. e = EvStderr (DiagWrite m err)))"
    unfolding f0 by blast
  show "asyncSignalChan w \<noteq> None \<longrightarrow>
       asyncSignalChan w' = Some True \<and>
       (\<exists>ch. asyncMsgChan w' = Some ch \<and> ch_buf ch = [] \<and> ch_closed ch)"
    using w0 by (auto simp: w' drain_fields)
  show "\<forall>fd p f. fault os SysWrite = None \<and> fileWriter w = Some fd \<and> fds os fd = Some p \<and>
        files os p = Some f \<longrightarrow>
          (\<exists>f'. files os' p = Some f' \<and> Data f' = Data f @ concat (pending w)) \<and> fds os' fd = None"
  proof (intro allI impI)
    fix fd p f
    assume a: "fault os SysWrite = None \<and> fileWriter w = Some fd \<and> fds os fd = Some p \<and>
        files os p = Some f"
    then have "(\<exists>f'. files (snd (drain (pending w) (w0, os))) p = Some f' \<and>
                 Data f' = Data f @ concat (pending w)) \<and>
               fds (snd (drain (pending w) (w0, os))) = fds os"
      using drain_data [of os w0 fd p f "pending w"] f0 by simp
    with a show "(\<exists>f'. files os' p = Some f' \<and> Data f' = Data f @ concat (pending w)) \<and> fds os' fd = None"
      by (simp add: os' CloseFile_files SyncFile_files CloseFile_fds)
  qed
qed

text \<open>
  C7. Closing a closed backend returns at once and changes nothing: neither the backend
  nor the system, so no write, sync or close is issued. Closing a running backend whose
  channels are as the constructor made them returns. Whenever closing a running backend
  returns, the status is closed; the calls it issued are one write through the
  descriptor for each message that was pending, in the order of the queue, each
  followed at most by the report of its failure, and then one sync and one close of the
  descriptor; in asynchronous mode both channels are closed and the queue is empty;
  where writes do not fail the file has the pending messages appended and the
  descriptor is closed; and a second call gives back exactly the state the first one
  left.
\<close>

theorem Close_idempotent:
  "(status w = 0 \<longrightarrow> Close (w, os) = Inr (w, os)) \<and>
   (status w \<noteq> 0 \<and> chans_open w \<longrightarrow> (\<exists>s'. Close (w, os) = Inr s')) \<and>
   (status w \<noteq> 0 \<and> Close (w, os) = Inr (w', os') \<longrightarrow>
      status w' = 0 \<and>
      (\<exists>evs. trace os' = trace os @ evs @ [EvSync (fileWriter w), EvClose (fileWriter w)] \<and>
             filter notStderr evs = map (EvWrite (fileWriter w)) (pending w) \<and>
             (\<forall>e \<in> set evs. (\<exists>m. e = EvWrite (fileWriter w) m) \<or>
                              (\<exists>m err. e = EvStderr (DiagWrite m err)))) \<and>
      (asyncSignalChan w \<noteq> None \<longrightarrow>
         asyncSignalChan w' = Some True \<and>
         (\<exists>ch. asyncMsgChan w' = Some ch \<and> ch_buf ch = [] \<and> ch_closed ch)) \<and>
      (\<forall>fd p f. fault os SysWrite = None \<and> fileWriter w = Some fd \<and> fds os fd = Some p \<and>
          files os p = Some f \<longrightarrow>
            (\<exists>f'. files os' p = Some f' \<and> Data f' = Data f @ concat (pending w)) \<and>
            fds os' fd = None) \<and>
      Close (w', os') = Inr (w', os'))"
proof (intro conjI impI)
  assume "status w = 0"
  then show "Close (w, os) = Inr (w, os)" by (rule Close_closed)
next
  assume "status w \<noteq> 0 \<and> chans_open w"
  then show "\<exists>s'. Close (w, os) = Inr s'" using Close_running_returns by blast
next
  assume a: "status w \<noteq> 0 \<and> Close (w, os) = Inr (w', os')"
  then have run: "status w \<noteq> 0" and res: "Close (w, os) = Inr (w', os')" by simp_all
  show "status w' = 0" by (rule Close_running_full(1) [OF run res])
  then show "Close (w', os') = Inr (w', os')" by (rule Close_closed)
  show "\<exists>evs. trace os' = trace os @ evs @ [EvSync (fileWriter w), EvClose (fileWriter w)] \<and>
             filter notStderr evs = map (EvWrite (fileWriter w)) (pending w) \<and>
             (\<forall>e \<in> set evs. (\<exists>m. e = EvWrite (fileWriter w) m) \<or>
                              (\<exists>m err. e = EvStderr (DiagWrite m err)))"
    by (rule Close_running_full(2) [OF run res])
  show "\<forall>fd p f. fault os SysWrite = None \<and> fileWriter w = Some fd \<and> fds os fd = Some p \<and>
          files os p = Some f \<longrightarrow>
            (\<exists>f'. files os' p = Some f' \<and> Data f' = Data f @ concat (pending w)) \<and>
            fds os' fd = None"
    by (rule Close_running_full(4) [OF run res])
next
  assume a: "status w \<noteq> 0 \<and> Close (w, os) = Inr (w', os')"
  assume "asyncSignalChan w \<noteq> None"
  with a Close_running_full(3) [of w os w' os']
  show "asyncSignalChan w' = Some True" "\<exists>ch. asyncMsgChan w' = Some ch \<and> ch_buf ch = [] \<and> ch_closed ch"
    by simp_all
qed

theorem Close_idempotent_witness:
  "\<exists>s'. Close (async_backend, sample_os) = Inr s' \<and> status (fst s') = 0 \<and>
        filter notStderr (trace (snd s')) =
          [EvWrite (Some 3) (''one'' @ [CHR 0x0A]), EvWrite (Some 3) (''two'' @ [CHR 0x0A]),
           EvSync (Some 3), EvClose (Some 3)] \<and>
        asyncSignalChan (fst s') = Some True \<and>
        (\<exists>f'. files (snd s') ''app.log'' = Some f' \<and>
              Data f' = ''a line'' @ [CHR 0x0A] @ ''one'' @ [CHR 0x0A] @ ''two'' @ [CHR 0x0A]) \<and>
        fds (snd s') 3 = None \<and>
        Close s' = Inr s'"
proof -
  have v: "status async_backend \<noteq> 0" "chans_open async_backend"
    "fileWriter async_backend = Some 3" "asyncSignalChan async_backend \<noteq> None"
    "pending async_backend = [''one'' @ [CHR 0x0A], ''two'' @ [CHR 0x0A]]"
    by (simp_all add: async_backend_def sample_backend_def newBackend_def chans_open_def
          pending_def Let_def)
  have o: "trace sample_os = []" "fault sample_os SysWrite = None \<and> fileWriter async_backend = Some 3 \<and>
      fds sample_os 3 = Some ''app.log'' \<and> files sample_os ''app.log'' = Some sample_file"
    "Data sample_file = ''a line'' @ [CHR 0x0A]"
    by (simp_all add: sample_os_def sample_file_def v)
  from v Close_idempotent [of async_backend sample_os] obtain s'
    where s': "Close (async_backend, sample_os) = Inr s'" by blast
  note th = Close_idempotent [of async_backend sample_os "fst s'" "snd s'",
      THEN conjunct2, THEN conjunct2, THEN mp]
  have h: "status async_backend \<noteq> 0 \<and> Close (async_backend, sample_os) = Inr (fst s', snd s')"
    using v s' by simp
  note r = th [OF h]
  have "status (fst s') = 0" using r by blast
  moreover obtain evs where evs:
    "trace (snd s') = trace sample_os @ evs @ [EvSync (fileWriter async_backend), EvClose (fileWriter async_backend)]"
    "filter notStderr evs = map (EvWrite (fileWriter async_backend)) (pending async_backend)"
    using r by blast
  then have "filter notStderr (trace (snd s')) =
          [EvWrite (Some 3) (''one'' @ [CHR 0x0A]), EvWrite (Some 3) (''two'' @ [CHR 0x0A]),
           EvSync (Some 3), EvClose (Some 3)]"
    by (simp add: v o notStderr_def)
  moreover have "asyncSignalChan (fst s') = Some True" using r v(4) by blast
  moreover have "(\<exists>f'. files (snd s') ''app.log'' = Some f' \<and>
              Data f' = Data sample_file @ concat (pending async_backend)) \<and> fds (snd s') 3 = None"
    using r o(2) by blast
  then have "(\<exists>f'. files (snd s') ''app.log'' = Some f' \<and>
              Data f' = ''a line'' @ [CHR 0x0A] @ ''one'' @ [CHR 0x0A] @ ''two'' @ [CHR 0x0A]) \<and>
        fds (snd s') 3 = None"
    by (simp add: v o)
  moreover have "Close s' = Inr s'" using r by simp
  ultimately show ?thesis using s' by blast
qed

subsection \<open>Evaluating the sample states\<close>

lemmas os_defs = OpenFile_def CloseFile_def SyncFile_def StatFile_def WriteFile_def Rename_def
  Remove_def MkdirAll_def Lstat_def Stat_def Open_def ReadFile_def emit_def

lemmas sample_defs = sample_os_def sample_backend_def sample_file_def failing_os_def day14_def day15_def

lemma ensureDir_sample:
  "ensureDir ''app.log'' (failing_os cs) = emit (EvMkdirAll []) (failing_os cs)"
  by (simp add: ensureDir_def Split_def os_defs sample_defs Let_def)

lemma newBackend_sample:
  "newBackend ''app.log'' [] =
     \<lparr>status = 0, Filename = ''app.log'', fileWriter = None,
      MaxLines = 1000000, maxLinesCurLines = 0,
      MaxSize = 268435456, maxSizeCurSize = 0,
      Daily = True, MaxDays = 7, dailyOpenDate = 0,
      Rotate = True, Perm = 432,
      fileNameOnly = ''app'', suffix = ''.log'',
      asyncMsgChan = None, asyncSignalChan = None\<rparr>"
  by (simp add: newBackend_def Let_def Ext_def TrimSuffix_def HasSuffix_def)

subsection \<open>Construction\<close>

lemma initFd_fields:
  "status (snd (initFd w os)) = status w"
  "Filename (snd (initFd w os)) = Filename w"
  "fileWriter (snd (initFd w os)) = fileWriter w"
  "MaxLines (snd (initFd w os)) = MaxLines w"
  "MaxSize (snd (initFd w os)) = MaxSize w"
  "Daily (snd (initFd w os)) = Daily w"
  "MaxDays (snd (initFd w os)) = MaxDays w"
  "Rotate (snd (initFd w os)) = Rotate w"
  "Perm (snd (initFd w os)) = Perm w"
  "fileNameOnly (snd (initFd w os)) = fileNameOnly w"
  "suffix (snd (initFd w os)) = suffix w"
  "asyncMsgChan (snd (initFd w os)) = asyncMsgChan w"
  "asyncSignalChan (snd (initFd w os)) = asyncSignalChan w"
  by (simp_all add: initFd_def Let_def split: sum.splits option.splits)

lemma startLogger_fields:
  "Filename (fst (snd (startLogger (w, os)))) = Filename w"
  "MaxLines (fst (snd (startLogger (w, os)))) = MaxLines w"
  "MaxSize (fst (snd (startLogger (w, os)))) = MaxSize w"
  "Daily (fst (snd (startLogger (w, os)))) = Daily w"
  "MaxDays (fst (snd (startLogger (w, os)))) = MaxDays w"
  "Rotate (fst (snd (startLogger (w, os)))) = Rotate w"
  "Perm (fst (snd (startLogger (w, os)))) = Perm w"
  "fileNameOnly (fst (snd (startLogger (w, os)))) = fileNameOnly w"
  "suffix (fst (snd (startLogger (w, os)))) = suffix w"
  "asyncMsgChan (fst (snd (startLogger (w, os)))) = asyncMsgChan w"
  "asyncSignalChan (fst (snd (startLogger (w, os)))) = asyncSignalChan w"
  by (simp_all add: startLogger_def Let_def initFd_fields split: prod.splits sum.splits)

lemma newBackend_config:
  "MaxLines (newBackend filename asyncLen) = 1000000"
  "MaxSize (newBackend filename asyncLen) = 2 ^ 28"
  "Daily (newBackend filename asyncLen)"
  "MaxDays (newBackend filename asyncLen) = 7"
  "Rotate (newBackend filename asyncLen)"
  "Perm (newBackend filename asyncLen) = 6 * 8 ^ 2 + 6 * 8"
  "Filename (newBackend filename asyncLen) = filename"
  "status (newBackend filename asyncLen) = 0"
  by (simp_all add: newBackend_def Let_def split: list.splits)

lemma newBackend_chans:
  "asyncMsgChan (newBackend filename asyncLen) =
     (case asyncLen of [] \<Rightarrow> None
      | a # rest \<Rightarrow> if 0 <s a then Some \<lparr>ch_cap = a, ch_buf = [], ch_closed = False\<rparr> else None)"
  "asyncSignalChan (newBackend filename asyncLen) =
     (case asyncLen of [] \<Rightarrow> None | a # rest \<Rightarrow> if 0 <s a then Some False else None)"
  by (simp_all add: newBackend_def Let_def split: list.splits)

text \<open>The constructor leaves the channels open, and starting the logger keeps them.\<close>

lemma newBackend_chans_open: "chans_open (newBackend filename asyncLen)"
  by (simp add: chans_open_def newBackend_chans split: list.splits)

lemma startLogger_chans_open:
  "chans_open (fst (snd (startLogger (w, os)))) = chans_open w"
  by (simp add: chans_open_def startLogger_fields cong: option.case_cong)

text \<open>
  C9. For a filename that is not empty the constructor returns a backend, which is the
  one \<open>startLogger\<close> was run on; both before and after that run the configuration is
  MaxLines 1000000, MaxSize \<open>2 ^ 28\<close>, Daily, MaxDays 7, Rotate, Perm 0660 (octal), and
  the two channels exist exactly when a first capacity argument is there and positive.
\<close>

theorem NewDefaultFileBackend_defaults:
  "filename \<noteq> [] \<longrightarrow>
     (\<exists>w err os'. NewDefaultFileBackend filename asyncLen os = ((Some w, err), os') \<and>
        (w, os') = snd (startLogger (newBackend filename asyncLen, ensureDir filename os)) \<and>
        (\<forall>b \<in> {newBackend filename asyncLen, w}.
           MaxLines b = 1000000 \<and> MaxSize b = 2 ^ 28 \<and> Daily b \<and> MaxDays b = 7 \<and>
           Rotate b \<and> Perm b = 6 * 8 ^ 2 + 6 * 8 \<and>
           (asyncMsgChan b \<noteq> None) = (\<exists>a rest. asyncLen = a # rest \<and> 0 < sint a) \<and>
           (asyncSignalChan b \<noteq> None) = (\<exists>a rest. asyncLen = a # rest \<and> 0 < sint a)))"
  by (cases asyncLen)
     (auto simp: NewDefaultFileBackend_def Let_def startLogger_fields newBackend_config newBackend_chans
        word_sless_alt)

theorem NewDefaultFileBackend_defaults_witness:
  "\<exists>w err os'. NewDefaultFileBackend ''app.log'' [8] sample_os = ((Some w, err), os') \<and>
     sint (MaxLines w) = 1000000 \<and> sint (MaxSize w) = 268435456 \<and> Daily w \<and> sint (MaxDays w) = 7 \<and>
     Rotate w \<and> unat (Perm w) = 432 \<and> asyncMsgChan w \<noteq> None \<and> asyncSignalChan w \<noteq> None"
  using NewDefaultFileBackend_defaults [of "''app.log''" "[8]" sample_os]
  by (auto simp: word_sless_alt)

text \<open>
  C10. With an empty filename the constructor returns no backend and the error, and
  touches nothing. With any other filename it returns a backend, whatever
  \<open>startLogger\<close> reports, and the error it returns is the one \<open>startLogger\<close> reports: a
  failed start gives the backend together with the error.
\<close>

theorem NewDefaultFileBackend_result:
  "(filename = [] \<longrightarrow>
      NewDefaultFileBackend filename asyncLen os = ((None, Some ErrNoFilename), os)) \<and>
   (filename \<noteq> [] \<longrightarrow>
      (\<exists>w. fst (fst (NewDefaultFileBackend filename asyncLen os)) = Some w) \<and>
      snd (fst (NewDefaultFileBackend filename asyncLen os)) =
        fst (startLogger (newBackend filename asyncLen, ensureDir filename os)))"
  by (simp add: NewDefaultFileBackend_def Let_def newBackend_config)

text \<open>
  The three ways of the claim: the file cannot be created, it cannot be examined, its
  lines cannot be counted.
\<close>

lemma startLogger_cannot_create:
  "fst (startLogger (newBackend ''app.log'' [], ensureDir ''app.log'' (failing_os [SysOpenFile])))
     = Some (ErrOs EACCES)"
  by (simp only: ensureDir_sample newBackend_sample)
     (simp add: startLogger_def createLogFile_def os_defs sample_defs Let_def)

lemma startLogger_cannot_stat:
  "fst (startLogger (newBackend ''app.log'' [], ensureDir ''app.log'' (failing_os [SysFstat])))
     = Some (ErrGetStat EACCES)"
  by (simp only: ensureDir_sample newBackend_sample)
     (simp add: startLogger_def createLogFile_def initFd_def os_defs sample_defs Let_def)

lemma startLogger_cannot_count:
  "fst (startLogger (newBackend ''app.log'' [], ensureDir ''app.log'' (failing_os [SysRead])))
     = Some (ErrOs EACCES)"
  by (simp only: ensureDir_sample newBackend_sample)
     (simp add: startLogger_def createLogFile_def initFd_def lines_def lines_loop.simps Size_def
        word_sless_alt os_defs sample_defs Let_def)

theorem NewDefaultFileBackend_result_witness:
  "fst (fst (NewDefaultFileBackend ''app.log'' [] (failing_os [SysOpenFile]))) \<noteq> None \<and>
   snd (fst (NewDefaultFileBackend ''app.log'' [] (failing_os [SysOpenFile]))) = Some (ErrOs EACCES) \<and>
   fst (fst (NewDefaultFileBackend ''app.log'' [] (failing_os [SysFstat]))) \<noteq> None \<and>
   snd (fst (NewDefaultFileBackend ''app.log'' [] (failing_os [SysFstat]))) = Some (ErrGetStat EACCES) \<and>
   fst (fst (NewDefaultFileBackend ''app.log'' [] (failing_os [SysRead]))) \<noteq> None \<and>
   snd (fst (NewDefaultFileBackend ''app.log'' [] (failing_os [SysRead]))) = Some (ErrOs EACCES) \<and>
   NewDefaultFileBackend [] [] sample_os = ((None, Some ErrNoFilename), sample_os)"
  using startLogger_cannot_create startLogger_cannot_stat startLogger_cannot_count
    NewDefaultFileBackend_result [of "''app.log''" "[]" "failing_os [SysOpenFile]"]
    NewDefaultFileBackend_result [of "''app.log''" "[]" "failing_os [SysFstat]"]
    NewDefaultFileBackend_result [of "''app.log''" "[]" "failing_os [SysRead]"]
    NewDefaultFileBackend_result [of "[]" "[]" sample_os]
  by auto

subsection \<open>Rotation\<close>

lemma probe_loop_finds:
  assumes "num \<le> k" "k \<le> maxFileIndex" "files os (archiveName w t k) = None"
    "\<forall>j. num \<le> j \<and> j < k \<longrightarrow> files os (archiveName w t j) \<noteq> None"
  shows "probe_loop os w t num fName None = (archiveName w t k, Some ENOENT)"
  using assms
proof (induction "k - num" arbitrary: num fName)
  case 0
  then have "num = k" by simp
  with 0 show ?case
    by (simp add: probe_loop.simps [of os w t k] probe_loop.simps [of os w t "Suc k"] Lstat_def)
next
  case (Suc d)
  then have lt: "num < k" by simp
  with Suc.prems obtain f where f: "files os (archiveName w t num) = Some f" by auto
  have "probe_loop os w t (Suc num) (archiveName w t num) None = (archiveName w t k, Some ENOENT)"
    using Suc.hyps Suc.prems lt by (intro Suc.hyps(1)) auto
  with lt Suc.prems f show ?case
    by (simp add: probe_loop.simps [of os w t num] Lstat_def)
qed

lemma probe_loop_exhausted:
  assumes "\<forall>j. num \<le> j \<and> j \<le> maxFileIndex \<longrightarrow> files os (archiveName w t j) \<noteq> None"
  shows "snd (probe_loop os w t num fName None) = None"
  using assms
proof (induction "Suc maxFileIndex - num" arbitrary: num fName)
  case 0
  then show ?case by (simp add: probe_loop.simps [of os w t num])
next
  case (Suc d)
  then have le: "num \<le> maxFileIndex" by simp
  with Suc.prems obtain f where f: "files os (archiveName w t num) = Some f" by auto
  have "snd (probe_loop os w t (Suc num) (archiveName w t num) None) = None"
    using Suc.hyps Suc.prems by (intro Suc.hyps(1)) auto
  with le f show ?case
    by (simp add: probe_loop.simps [of os w t num] Lstat_def)
qed

lemma OpenFile_trace: "\<exists>evs. trace (snd (OpenFile name os)) = trace os @ EvOpenFile name # evs"
  by (simp add: OpenFile_def emit_def Let_def split: option.splits)

lemma Rename_trace: "trace (snd (Rename src dst os)) = trace os @ [EvRename src dst]"
  by (simp add: Rename_def emit_def Let_def split: option.splits)

lemma startLogger_trace:
  "\<exists>evs. trace (snd (snd (startLogger (w, os)))) = trace os @ EvOpenFile (Filename w) # evs"
proof (cases "OpenFile (Filename w) os")
  case (Pair r os1)
  have t: "trace os1 = trace os @ [EvOpenFile (Filename w)]"
    using Pair by (auto simp: OpenFile_def emit_def Let_def split: option.splits if_splits)
  show ?thesis
  proof (cases r)
    case (Inl e)
    with Pair t show ?thesis by (simp add: startLogger_def createLogFile_def)
  next
    case (Inr fd)
    with Pair t show ?thesis
      by (simp add: startLogger_def createLogFile_def Let_def CloseFile_trace emit_def)
  qed
qed

lemma doRotate_found:
  assumes present: "Lstat os (Filename w) = Inr info"
    and k: "1 \<le> k" "k \<le> 999"
    and free: "files os (archiveName w (archiveStamp w logTime info) k) = None"
    and taken: "\<forall>j. 1 \<le> j \<and> j < k \<longrightarrow> files os (archiveName w (archiveStamp w logTime info) j) \<noteq> None"
  shows "doRotate logTime (w, os) =
     (let os1 = snd (CloseFile (fileWriter w) os);
          rn = Rename (Filename w) (archiveName w (archiveStamp w logTime info) k) os1;
          st = startLogger (w, snd rn)
      in (case fst st of
            Some e \<Rightarrow> Some (ErrRotateStartLogger e)
          | None \<Rightarrow> (case fst rn of Some e \<Rightarrow> Some (ErrRotate e) | None \<Rightarrow> None),
          (fst (snd st), emit (EvGo DeleteOldLog) (snd (snd st)))))"
proof -
  let ?t = "archiveStamp w logTime info"
  have p: "probe_loop os w ?t 1 [] None = (archiveName w ?t k, Some ENOENT)"
    using k free taken by (intro probe_loop_finds) (auto simp: maxFileIndex_def)
  show ?thesis
  proof (cases "Daily w \<and> Day logTime \<noteq> dailyOpenDate w")
    case True
    then have "?t = ModTime info" by (simp add: archiveStamp_def)
    with p have "probe_loop os w (ModTime info) 1 [] None = (archiveName w ?t k, Some ENOENT)" by simp
    with True present show ?thesis
      by (simp add: doRotate_def Let_def split: option.splits)
  next
    case False
    then have "?t = logTime" by (auto simp: archiveStamp_def)
    with p have "probe_loop os w logTime 1 [] None = (archiveName w ?t k, Some ENOENT)" by simp
    with False present show ?thesis
      by (auto simp: doRotate_def Let_def split: option.splits)
  qed
qed

lemma doRotate_exhausted:
  assumes present: "Lstat os (Filename w) = Inr info"
    and taken: "\<forall>j. 1 \<le> j \<and> j \<le> 999 \<longrightarrow> files os (archiveName w (archiveStamp w logTime info) j) \<noteq> None"
  shows "doRotate logTime (w, os) = (Some (ErrNoFreeNumber (Filename w)), (w, os))"
proof -
  let ?t = "archiveStamp w logTime info"
  have p: "snd (probe_loop os w ?t 1 [] None) = None"
    using taken by (intro probe_loop_exhausted) (auto simp: maxFileIndex_def)
  show ?thesis
  proof (cases "Daily w \<and> Day logTime \<noteq> dailyOpenDate w")
    case True
    then have "?t = ModTime info" by (simp add: archiveStamp_def)
    with p have "snd (probe_loop os w (ModTime info) 1 [] None) = None" by simp
    with True present show ?thesis
      by (simp add: doRotate_def Let_def)
  next
    case False
    then have "?t = logTime" by (auto simp: archiveStamp_def)
    with p have "snd (probe_loop os w logTime 1 [] None) = None" by simp
    with False present show ?thesis
      by (auto simp: doRotate_def Let_def)
  qed
qed

lemma doRotate_absent:
  "Lstat os (Filename w) = Inl e \<Longrightarrow> doRotate logTime (w, os) = (Some (ErrOs e), (w, os))"
  by (simp add: doRotate_def)

lemma dec_1: "n < 10 \<Longrightarrow> dec n = [digit n]"
  by (simp add: dec.simps [of n])

lemma dec_2: "10 \<le> n \<Longrightarrow> n < 100 \<Longrightarrow> dec n = [digit (n div 10), digit (n mod 10)]"
  by (simp add: dec.simps [of n] dec_1)

lemma dec_3:
  "100 \<le> n \<Longrightarrow> n < 1000 \<Longrightarrow> dec n = [digit (n div 100), digit (n div 10 mod 10), digit (n mod 10)]"
  by (simp add: dec.simps [of n] dec_2 div_mult2_eq [symmetric])

lemma dec_4:
  "1000 \<le> n \<Longrightarrow> n < 10000 \<Longrightarrow>
   dec n = [digit (n div 1000), digit (n div 100 mod 10), digit (n div 10 mod 10), digit (n mod 10)]"
  by (simp add: dec.simps [of n] dec_3 div_mult2_eq [symmetric])

lemma digit_0: "digit 0 = CHR ''0''"
  by (simp add: digit_def)

lemma Sprintf_03d_shape:
  assumes "k \<le> 999"
  shows "Sprintf_03d k = [digit (k div 100), digit (k div 10 mod 10), digit (k mod 10)]"
proof -
  consider "k < 10" | "10 \<le> k" "k < 100" | "100 \<le> k" "k < 1000" using assms by linarith
  then show ?thesis
  proof cases
    case 1
    then show ?thesis by (simp add: Sprintf_03d_def zero_pad_def dec_1 digit_0 numeral_3_eq_3)
  next
    case 2
    then show ?thesis by (simp add: Sprintf_03d_def zero_pad_def dec_2 digit_0)
  next
    case 3
    then show ?thesis by (simp add: Sprintf_03d_def zero_pad_def dec_3)
  qed
qed

lemma appendInt_2_shape:
  assumes "0 \<le> x" "x < 100"
  shows "appendInt x 2 = [digit (nat x div 10), digit (nat x mod 10)]"
proof -
  consider "nat x < 10" | "10 \<le> nat x" "nat x < 100" using assms by linarith
  then show ?thesis
  proof cases
    case 1
    with assms show ?thesis by (simp add: appendInt_def zero_pad_def dec_1 digit_0)
  next
    case 2
    with assms show ?thesis by (simp add: appendInt_def zero_pad_def dec_2)
  qed
qed

lemma appendInt_4_shape:
  assumes "0 \<le> x" "x < 10000"
  shows "appendInt x 4 =
     [digit (nat x div 1000), digit (nat x div 100 mod 10), digit (nat x div 10 mod 10),
      digit (nat x mod 10)]"
proof -
  consider "nat x < 10" | "10 \<le> nat x" "nat x < 100" | "100 \<le> nat x" "nat x < 1000"
    | "1000 \<le> nat x" "nat x < 10000" using assms by linarith
  then show ?thesis
  proof cases
    case 1
    with assms show ?thesis by (simp add: appendInt_def zero_pad_def dec_1 digit_0 numeral_3_eq_3)
  next
    case 2
    with assms show ?thesis by (simp add: appendInt_def zero_pad_def dec_2 digit_0 numeral_2_eq_2)
  next
    case 3
    with assms show ?thesis by (simp add: appendInt_def zero_pad_def dec_3 digit_0)
  next
    case 4
    with assms show ?thesis by (simp add: appendInt_def zero_pad_def dec_4)
  qed
qed

lemma Format_date_shape:
  assumes "0 \<le> sint (Year t)" "sint (Year t) < 10000"
    "0 \<le> sint (Month t)" "sint (Month t) < 100" "0 \<le> sint (Day t)" "sint (Day t) < 100"
  shows "Format_date t =
     [digit (nat (sint (Year t)) div 1000), digit (nat (sint (Year t)) div 100 mod 10),
      digit (nat (sint (Year t)) div 10 mod 10), digit (nat (sint (Year t)) mod 10), CHR ''-'',
      digit (nat (sint (Month t)) div 10), digit (nat (sint (Month t)) mod 10), CHR ''-'',
      digit (nat (sint (Day t)) div 10), digit (nat (sint (Day t)) mod 10)]"
  using assms by (simp add: Format_date_def appendInt_2_shape appendInt_4_shape)

lemma OpenFile_files_other:
  "p \<noteq> name \<Longrightarrow> files (snd (OpenFile name os)) p = files os p"
  by (simp add: OpenFile_def emit_def Let_def split: option.splits)

lemma startLogger_files_other:
  "p \<noteq> Filename w \<Longrightarrow> files (snd (snd (startLogger (w, os)))) p = files os p"
proof (cases "OpenFile (Filename w) os")
  case (Pair r os1)
  assume "p \<noteq> Filename w"
  then have f: "files os1 p = files os p"
    using OpenFile_files_other [of p "Filename w" os] Pair by simp
  show ?thesis
  proof (cases r)
    case (Inl e)
    with Pair f show ?thesis by (simp add: startLogger_def createLogFile_def)
  next
    case (Inr fd)
    with Pair f show ?thesis
      by (simp add: startLogger_def createLogFile_def Let_def CloseFile_files emit_def)
  qed
qed

lemma Rename_files_ok:
  "fault os SysRename = None \<Longrightarrow> files os src = Some f \<Longrightarrow>
   files (snd (Rename src dst os)) dst = Some f \<and> fst (Rename src dst os) = None"
  by (simp add: Rename_def emit_def Let_def)

lemma CloseFile_fault: "fault (snd (CloseFile fw os)) = fault os"
  by (simp add: CloseFile_def emit_def Let_def split: option.splits)

lemma doRotate_found_trace:
  assumes present: "Lstat os (Filename w) = Inr info"
    and k: "1 \<le> k" "k \<le> 999"
    and free: "files os (archiveName w (archiveStamp w logTime info) k) = None"
    and taken: "\<forall>j. 1 \<le> j \<and> j < k \<longrightarrow> files os (archiveName w (archiveStamp w logTime info) j) \<noteq> None"
  shows "\<exists>evs. trace (snd (snd (doRotate logTime (w, os)))) =
           trace os @ [EvClose (fileWriter w),
                       EvRename (Filename w) (archiveName w (archiveStamp w logTime info) k),
                       EvOpenFile (Filename w)] @ evs"
proof -
  let ?a = "archiveName w (archiveStamp w logTime info) k"
  let ?os1 = "snd (CloseFile (fileWriter w) os)"
  let ?os2 = "snd (Rename (Filename w) ?a ?os1)"
  obtain evs where "trace (snd (snd (startLogger (w, ?os2)))) = trace ?os2 @ EvOpenFile (Filename w) # evs"
    using startLogger_trace by blast
  then have "trace (snd (snd (doRotate logTime (w, os)))) =
     trace os @ [EvClose (fileWriter w), EvRename (Filename w) ?a, EvOpenFile (Filename w)]
       @ (evs @ [EvGo DeleteOldLog])"
    by (simp add: doRotate_found [OF assms] Let_def emit_def Rename_trace CloseFile_trace)
  then show ?thesis by blast
qed

lemma doRotate_found_files:
  assumes present: "Lstat os (Filename w) = Inr info"
    and k: "1 \<le> k" "k \<le> 999"
    and free: "files os (archiveName w (archiveStamp w logTime info) k) = None"
    and taken: "\<forall>j. 1 \<le> j \<and> j < k \<longrightarrow> files os (archiveName w (archiveStamp w logTime info) j) \<noteq> None"
    and ok: "fault os SysRename = None"
  shows "files (snd (snd (doRotate logTime (w, os)))) (archiveName w (archiveStamp w logTime info) k)
           = Some info"
proof -
  let ?a = "archiveName w (archiveStamp w logTime info) k"
  let ?os1 = "snd (CloseFile (fileWriter w) os)"
  let ?os2 = "snd (Rename (Filename w) ?a ?os1)"
  have src: "files os (Filename w) = Some info"
    using present by (simp add: Lstat_def split: option.splits)
  with free have ne: "?a \<noteq> Filename w" by auto
  have "files ?os2 ?a = Some info"
    using Rename_files_ok [of ?os1 "Filename w" info ?a] ok src
    by (simp add: CloseFile_fault CloseFile_files)
  with ne show ?thesis
    by (simp add: doRotate_found [OF present k free taken] Let_def emit_def startLogger_files_other)
qed

text \<open>
  C2. When the active file is there, the name passed to the rename is
  \<open>base.date.NNN suffix\<close> with the date stamp of \<open>archiveStamp\<close> and the first index
  from 1 whose name is not on disk, three digits wide: the rename is the call issued
  right after the descriptor is closed and, when the rename itself does not fail, the
  file is found under that name afterwards. When all of 1 to 999 are taken the rotation
  fails with the no-free-number error and changes nothing. The date is ten characters,
  four, two and two digits, for a four-digit year.
\<close>

theorem doRotate_archive_name:
  assumes "Lstat os (Filename w) = Inr info"
  shows
    "(1 \<le> k \<and> k \<le> 999 \<and>
      files os (archiveName w (archiveStamp w logTime info) k) = None \<and>
      (\<forall>j. 1 \<le> j \<and> j < k \<longrightarrow> files os (archiveName w (archiveStamp w logTime info) j) \<noteq> None)
      \<longrightarrow>
        (\<exists>evs. trace (snd (snd (doRotate logTime (w, os)))) =
           trace os @ [EvClose (fileWriter w),
                       EvRename (Filename w) (archiveName w (archiveStamp w logTime info) k)] @ evs) \<and>
        (fault os SysRename = None \<longrightarrow>
           files (snd (snd (doRotate logTime (w, os))))
             (archiveName w (archiveStamp w logTime info) k) = Some info) \<and>
        archiveName w (archiveStamp w logTime info) k =
          fileNameOnly w @ ''.'' @ Format_date (archiveStamp w logTime info) @ ''.'' @
          [digit (k div 100), digit (k div 10 mod 10), digit (k mod 10)] @ suffix w)
     \<and>
     ((\<forall>j. 1 \<le> j \<and> j \<le> 999 \<longrightarrow> files os (archiveName w (archiveStamp w logTime info) j) \<noteq> None)
      \<longrightarrow> doRotate logTime (w, os) = (Some (ErrNoFreeNumber (Filename w)), (w, os)))
     \<and>
     (\<forall>t. 0 \<le> sint (Year t) \<and> sint (Year t) < 10000 \<and> 0 \<le> sint (Month t) \<and> sint (Month t) < 100 \<and>
          0 \<le> sint (Day t) \<and> sint (Day t) < 100 \<longrightarrow>
        Format_date t =
          [digit (nat (sint (Year t)) div 1000), digit (nat (sint (Year t)) div 100 mod 10),
           digit (nat (sint (Year t)) div 10 mod 10), digit (nat (sint (Year t)) mod 10), CHR ''-'',
           digit (nat (sint (Month t)) div 10), digit (nat (sint (Month t)) mod 10), CHR ''-'',
           digit (nat (sint (Day t)) div 10), digit (nat (sint (Day t)) mod 10)])"
proof (intro conjI impI allI)
  assume a: "1 \<le> k \<and> k \<le> 999 \<and>
      files os (archiveName w (archiveStamp w logTime info) k) = None \<and>
      (\<forall>j. 1 \<le> j \<and> j < k \<longrightarrow> files os (archiveName w (archiveStamp w logTime info) j) \<noteq> None)"
  then obtain evs where "trace (snd (snd (doRotate logTime (w, os)))) =
           trace os @ [EvClose (fileWriter w),
                       EvRename (Filename w) (archiveName w (archiveStamp w logTime info) k),
                       EvOpenFile (Filename w)] @ evs"
    using doRotate_found_trace [OF assms, of k logTime] by blast
  then show "\<exists>evs. trace (snd (snd (doRotate logTime (w, os)))) =
           trace os @ [EvClose (fileWriter w),
                       EvRename (Filename w) (archiveName w (archiveStamp w logTime info) k)] @ evs"
    by simp
  show "archiveName w (archiveStamp w logTime info) k =
          fileNameOnly w @ ''.'' @ Format_date (archiveStamp w logTime info) @ ''.'' @
          [digit (k div 100), digit (k div 10 mod 10), digit (k mod 10)] @ suffix w"
    using a by (simp add: archiveName_def Sprintf_03d_shape)
  assume "fault os SysRename = None"
  with a show "files (snd (snd (doRotate logTime (w, os))))
             (archiveName w (archiveStamp w logTime info) k) = Some info"
    using doRotate_found_files [OF assms, of k logTime] by blast
next
  assume "\<forall>j. 1 \<le> j \<and> j \<le> 999 \<longrightarrow> files os (archiveName w (archiveStamp w logTime info) j) \<noteq> None"
  then show "doRotate logTime (w, os) = (Some (ErrNoFreeNumber (Filename w)), (w, os))"
    by (rule doRotate_exhausted [OF assms])
next
  fix t :: go_time
  assume "0 \<le> sint (Year t) \<and> sint (Year t) < 10000 \<and> 0 \<le> sint (Month t) \<and> sint (Month t) < 100 \<and>
          0 \<le> sint (Day t) \<and> sint (Day t) < 100"
  then show "Format_date t =
          [digit (nat (sint (Year t)) div 1000), digit (nat (sint (Year t)) div 100 mod 10),
           digit (nat (sint (Year t)) div 10 mod 10), digit (nat (sint (Year t)) mod 10), CHR ''-'',
           digit (nat (sint (Month t)) div 10), digit (nat (sint (Month t)) mod 10), CHR ''-'',
           digit (nat (sint (Day t)) div 10), digit (nat (sint (Day t)) mod 10)]"
    by (simp add: Format_date_shape)
qed

lemma sample_present:
  "Lstat sample_os (Filename sample_backend) = Inr sample_file"
  "Lstat (failing_os cs) (Filename sample_backend) = Inr sample_file"
  "Lstat crowded_os (Filename sample_backend) = Inr sample_file"
  by (simp_all add: Lstat_def sample_os_def failing_os_def crowded_os_def sample_backend_def
        newBackend_sample HasPrefix_def)

lemma sample_stamp: "archiveStamp sample_backend day15 sample_file = day14"
  by (simp add: archiveStamp_def sample_backend_def newBackend_sample sample_file_def day15_def)

lemma Format_date_day14: "Format_date day14 = ''2023-11-14''"
  by (simp add: Format_date_shape day14_def digit_def)

lemma sample_archive:
  "archiveName sample_backend day14 k = ''app.2023-11-14.'' @ Sprintf_03d k @ ''.log''"
  by (simp add: archiveName_def Format_date_day14 sample_backend_def newBackend_sample)

lemma Sprintf_03d_1: "Sprintf_03d 1 = ''001''"
  by (simp add: Sprintf_03d_shape digit_def)

lemma sample_first_name:
  "archiveName sample_backend (archiveStamp sample_backend day15 sample_file) 1
     = ''app.2023-11-14.001.log''"
  by (simp only: sample_stamp sample_archive Sprintf_03d_1) simp

lemma sample_first_free:
  "files sample_os (archiveName sample_backend (archiveStamp sample_backend day15 sample_file) 1) = None"
  "files (failing_os cs) (archiveName sample_backend (archiveStamp sample_backend day15 sample_file) 1) = None"
  by (simp_all add: sample_stamp sample_archive Sprintf_03d_1 sample_os_def failing_os_def)

lemma crowded_taken:
  "files crowded_os (archiveName sample_backend (archiveStamp sample_backend day15 sample_file) j) \<noteq> None"
  by (simp add: sample_stamp sample_archive crowded_os_def HasPrefix_def)

theorem doRotate_archive_name_witness:
  "(\<exists>evs. trace (snd (snd (doRotate day15 (sample_backend, sample_os)))) =
      [EvClose (Some 3), EvRename ''app.log'' ''app.2023-11-14.001.log''] @ evs) \<and>
   files (snd (snd (doRotate day15 (sample_backend, sample_os)))) ''app.2023-11-14.001.log''
     = Some sample_file \<and>
   doRotate day15 (sample_backend, crowded_os)
     = (Some (ErrNoFreeNumber ''app.log''), (sample_backend, crowded_os)) \<and>
   Format_date day14 = ''2023-11-14''"
proof -
  have v: "fileWriter sample_backend = Some 3" "Filename sample_backend = ''app.log''"
    "trace sample_os = []" "fault sample_os SysRename = None"
    by (simp_all add: sample_backend_def newBackend_sample sample_os_def)
  have d: "0 \<le> sint (Year day14) \<and> sint (Year day14) < 10000 \<and> 0 \<le> sint (Month day14) \<and>
           sint (Month day14) < 100 \<and> 0 \<le> sint (Day day14) \<and> sint (Day day14) < 100"
    by (simp add: day14_def)
  have h: "(1::nat) \<le> 1 \<and> (1::nat) \<le> 999 \<and>
      files sample_os (archiveName sample_backend (archiveStamp sample_backend day15 sample_file) 1) = None \<and>
      (\<forall>j. 1 \<le> j \<and> j < 1 \<longrightarrow>
         files sample_os (archiveName sample_backend (archiveStamp sample_backend day15 sample_file) j) \<noteq> None)"
    using sample_first_free(1) by simp
  have c: "\<forall>j. 1 \<le> j \<and> j \<le> 999 \<longrightarrow>
      files crowded_os (archiveName sample_backend (archiveStamp sample_backend day15 sample_file) j) \<noteq> None"
    using crowded_taken by blast
  note t1 = doRotate_archive_name [OF sample_present(1), of 1 day15]
  note t2 = doRotate_archive_name [OF sample_present(3), of 1 day15]
  note a = t1 [THEN conjunct1, THEN mp, OF h]
  have "\<exists>evs. trace (snd (snd (doRotate day15 (sample_backend, sample_os)))) =
      [EvClose (Some 3), EvRename ''app.log'' ''app.2023-11-14.001.log''] @ evs"
    using a [THEN conjunct1] by (simp only: v sample_first_name append_Nil)
  moreover have "files (snd (snd (doRotate day15 (sample_backend, sample_os)))) ''app.2023-11-14.001.log''
       = Some sample_file"
    using a [THEN conjunct2, THEN conjunct1, THEN mp, OF v(4)] by (simp only: sample_first_name)
  moreover have "doRotate day15 (sample_backend, crowded_os)
     = (Some (ErrNoFreeNumber ''app.log''), (sample_backend, crowded_os))"
    using t2 [THEN conjunct2, THEN conjunct1, THEN mp, OF c] by (simp only: v)
  moreover have "Format_date day14 = ''2023-11-14''"
    using t1 [THEN conjunct2, THEN conjunct2, THEN spec, THEN mp, OF d]
    by (simp add: day14_def digit_def)
  ultimately show ?thesis by blast
qed

text \<open>
  C3, as the code has it. Once a free name is found, the descriptor is closed, the
  rename is issued and then the file is opened again at the original path, whatever the
  rename returned; the state left is the one \<open>startLogger\<close> leaves. The error reported
  is the one of \<open>startLogger\<close> when it failed, also when the rename failed too, and the
  one of the rename only when \<open>startLogger\<close> succeeded.
\<close>

theorem doRotate_reopens_and_reports:
  assumes "Lstat os (Filename w) = Inr info"
    and "1 \<le> k" "k \<le> 999"
    and "files os (archiveName w (archiveStamp w logTime info) k) = None"
    and "\<forall>j. 1 \<le> j \<and> j < k \<longrightarrow> files os (archiveName w (archiveStamp w logTime info) j) \<noteq> None"
  defines "rn \<equiv> Rename (Filename w) (archiveName w (archiveStamp w logTime info) k)
                   (snd (CloseFile (fileWriter w) os))"
  defines "st \<equiv> startLogger (w, snd rn)"
  shows "(\<exists>evs. trace (snd (snd (doRotate logTime (w, os)))) =
            trace os @ [EvClose (fileWriter w),
                        EvRename (Filename w) (archiveName w (archiveStamp w logTime info) k),
                        EvOpenFile (Filename w)] @ evs) \<and>
         snd (doRotate logTime (w, os)) = (fst (snd st), emit (EvGo DeleteOldLog) (snd (snd st))) \<and>
         fst (doRotate logTime (w, os)) =
           (case fst st of
              Some e \<Rightarrow> Some (ErrRotateStartLogger e)
            | None \<Rightarrow> (case fst rn of Some e \<Rightarrow> Some (ErrRotate e) | None \<Rightarrow> None))"
  unfolding rn_def st_def
  using doRotate_found_trace [OF assms(1-5)] doRotate_found [OF assms(1-5)]
  by (simp add: Let_def)

text \<open>
  With the rename and the reopening both failing, the error returned is the one of the
  reopening, not the one of the rename.
\<close>

theorem doRotate_both_fail_counterexample:
  "fst (Rename ''app.log'' ''app.2023-11-14.001.log''
          (snd (CloseFile (Some 3) (failing_os [SysRename, SysOpenFile])))) = Some EACCES \<and>
   fst (startLogger (sample_backend,
          snd (Rename ''app.log'' ''app.2023-11-14.001.log''
                 (snd (CloseFile (Some 3) (failing_os [SysRename, SysOpenFile])))))) = Some (ErrOs EACCES) \<and>
   fst (doRotate day15 (sample_backend, failing_os [SysRename, SysOpenFile]))
     = Some (ErrRotateStartLogger (ErrOs EACCES)) \<and>
   fst (doRotate day15 (sample_backend, failing_os [SysRename, SysOpenFile]))
     \<noteq> Some (ErrRotate EACCES)"
proof -
  let ?os = "failing_os [SysRename, SysOpenFile]"
  let ?os2 = "snd (Rename ''app.log'' ''app.2023-11-14.001.log'' (snd (CloseFile (Some 3) ?os)))"
  have v: "fileWriter sample_backend = Some 3" "Filename sample_backend = ''app.log''"
    by (simp_all add: sample_backend_def newBackend_sample)
  note v = v sample_first_name
  have r: "fst (Rename ''app.log'' ''app.2023-11-14.001.log'' (snd (CloseFile (Some 3) ?os))) = Some EACCES"
    by (simp add: Rename_def CloseFile_fault failing_os_def Let_def)
  have f: "fault ?os2 SysOpenFile = Some EACCES"
    by (simp add: Rename_def CloseFile_def emit_def failing_os_def sample_os_def Let_def)
  have s: "fst (startLogger (sample_backend, ?os2)) = Some (ErrOs EACCES)"
    using f by (simp add: startLogger_def createLogFile_def OpenFile_def Let_def)
  have "doRotate day15 (sample_backend, ?os) =
     (let os1 = snd (CloseFile (fileWriter sample_backend) ?os);
          rn = Rename (Filename sample_backend)
                 (archiveName sample_backend (archiveStamp sample_backend day15 sample_file) 1) os1;
          st = startLogger (sample_backend, snd rn)
      in (case fst st of
            Some e \<Rightarrow> Some (ErrRotateStartLogger e)
          | None \<Rightarrow> (case fst rn of Some e \<Rightarrow> Some (ErrRotate e) | None \<Rightarrow> None),
          (fst (snd st), emit (EvGo DeleteOldLog) (snd (snd st)))))"
    by (rule doRotate_found [OF sample_present(2) _ _ sample_first_free(2)]) simp_all
  then have "fst (doRotate day15 (sample_backend, ?os)) = Some (ErrRotateStartLogger (ErrOs EACCES))"
    by (simp only: v Let_def s fst_conv option.case)
  with r s show ?thesis by simp
qed

lemma sample_rename_fails:
  "Rename ''app.log'' ''app.2023-11-14.001.log'' (snd (CloseFile (Some 3) (failing_os (SysRename # cs))))
     = (Some EACCES,
        (failing_os (SysRename # cs))
          \<lparr>fds := Map.empty,
           trace := [EvClose (Some 3), EvRename ''app.log'' ''app.2023-11-14.001.log'']\<rparr>)"
  by (simp add: Rename_def CloseFile_def emit_def failing_os_def sample_os_def Let_def)

lemma sample_restart_ok:
  "fst (startLogger (sample_backend,
          (failing_os [SysRename])
            \<lparr>fds := Map.empty,
             trace := [EvClose (Some 3), EvRename ''app.log'' ''app.2023-11-14.001.log'']\<rparr>)) = None"
  by (simp add: startLogger_def createLogFile_def initFd_def lines_def lines_loop.simps Size_def
        Count_nl_def word_sless_alt os_defs sample_defs newBackend_sample Let_def)

lemma sample_restart_fails:
  "fst (startLogger (sample_backend,
          (failing_os [SysRename, SysOpenFile])
            \<lparr>fds := Map.empty,
             trace := [EvClose (Some 3), EvRename ''app.log'' ''app.2023-11-14.001.log'']\<rparr>))
     = Some (ErrOs EACCES)"
  by (simp add: startLogger_def createLogFile_def os_defs sample_defs newBackend_sample Let_def)

theorem doRotate_reopens_and_reports_witness:
  "fst (doRotate day15 (sample_backend, failing_os [SysRename])) = Some (ErrRotate EACCES) \<and>
   fst (doRotate day15 (sample_backend, failing_os [SysRename, SysOpenFile]))
     = Some (ErrRotateStartLogger (ErrOs EACCES)) \<and>
   (\<exists>evs. trace (snd (snd (doRotate day15 (sample_backend, failing_os [SysRename])))) =
      [EvClose (Some 3), EvRename ''app.log'' ''app.2023-11-14.001.log'', EvOpenFile ''app.log''] @ evs)"
proof -
  have v: "fileWriter sample_backend = Some 3" "Filename sample_backend = ''app.log''"
    "trace (failing_os [SysRename]) = []"
    by (simp_all add: sample_backend_def newBackend_sample sample_os_def failing_os_def)
  have one: "(1::nat) \<le> 1" "(1::nat) \<le> 999" by simp_all
  have none: "\<forall>j. 1 \<le> j \<and> j < (1::nat) \<longrightarrow>
      files (failing_os cs) (archiveName sample_backend (archiveStamp sample_backend day15 sample_file) j) \<noteq> None"
    for cs by simp
  note t1 = doRotate_reopens_and_reports [OF sample_present(2) one sample_first_free(2) none,
      of "[SysRename]"]
  note t2 = doRotate_reopens_and_reports [OF sample_present(2) one sample_first_free(2) none,
      of "[SysRename, SysOpenFile]"]
  have "fst (doRotate day15 (sample_backend, failing_os [SysRename])) = Some (ErrRotate EACCES)"
    using t1 [THEN conjunct2, THEN conjunct2]
    by (simp only: v sample_first_name sample_rename_fails sample_restart_ok snd_conv fst_conv
          option.case)
  moreover have "fst (doRotate day15 (sample_backend, failing_os [SysRename, SysOpenFile]))
     = Some (ErrRotateStartLogger (ErrOs EACCES))"
    using t2 [THEN conjunct2, THEN conjunct2]
    by (simp only: v sample_first_name sample_rename_fails sample_restart_fails snd_conv fst_conv
          option.case)
  moreover have "\<exists>evs. trace (snd (snd (doRotate day15 (sample_backend, failing_os [SysRename])))) =
      [EvClose (Some 3), EvRename ''app.log'' ''app.2023-11-14.001.log'', EvOpenFile ''app.log''] @ evs"
    using t1 [THEN conjunct1] by (simp only: v sample_first_name append_Nil)
  ultimately show ?thesis by blast
qed

subsection \<open>The retention sweep\<close>

lemma Remove_effect:
  "files (snd (Remove name os)) = (files os)(name := None)"
  "trace (snd (Remove name os)) = trace os @ [EvRemove name]"
  "now (snd (Remove name os)) = now os"
  by (auto simp: Remove_def emit_def Let_def split: option.splits)

lemma walkFn_returns_nil: "fst (walkFn w path info err os) = None"
  by (simp add: walkFn_def Let_def split: sum.splits)

lemma walkFn_matches:
  "snd (walkFn w path (Some i) err os) =
     (if sweepMatches w (now os) path i then snd (Remove path os) else os)"
  by (auto simp: walkFn_def walkFn_body_def sweepMatches_def word_sless_alt)

lemma walkFn_nil:
  "snd (walkFn w path None err os) = emit (EvStderr (DiagDelete path NilPointerDereference)) os"
  by (simp add: walkFn_def walkFn_body_def)

lemma walkFn_now: "now (snd (walkFn w path info err os)) = now os"
  by (cases info) (simp_all add: walkFn_matches walkFn_nil Remove_effect emit_def)

lemma walkFn_trace:
  "trace (snd (walkFn w path info err os)) = trace os @ visitEvents w (now os) (path, info, err)"
  by (cases info) (simp_all add: walkFn_matches walkFn_nil Remove_effect emit_def visitEvents_def)

lemma walkFn_files:
  "files (snd (walkFn w path info err os)) p =
     (if p = path \<and> (\<exists>i. info = Some i \<and> sweepMatches w (now os) path i) then None
      else files os p)"
  by (cases info) (simp_all add: walkFn_matches walkFn_nil Remove_effect emit_def)

text \<open>The walk is never stopped by the function: every entry is visited.\<close>

lemma Walk_walkFn_completes: "fst (Walk (walkFn w) entries os) = None"
  by (induction "walkFn w" entries os rule: Walk.induct) (simp_all add: walkFn_returns_nil)

lemma deleteOldLog_Nil: "deleteOldLog w [] os = os"
  by (simp add: deleteOldLog_def)

lemma deleteOldLog_Cons:
  "deleteOldLog w ((path, info, err) # entries) os =
     deleteOldLog w entries (snd (walkFn w path info err os))"
  by (simp add: deleteOldLog_def walkFn_returns_nil)

lemma deleteOldLog_now: "now (deleteOldLog w entries os) = now os"
proof (induction entries arbitrary: os)
  case Nil
  then show ?case by (simp add: deleteOldLog_Nil)
next
  case (Cons e entries)
  then show ?case by (cases e) (simp add: deleteOldLog_Cons walkFn_now)
qed

lemma deleteOldLog_trace:
  "trace (deleteOldLog w entries os) = trace os @ concat (map (visitEvents w (now os)) entries)"
proof (induction entries arbitrary: os)
  case Nil
  then show ?case by (simp add: deleteOldLog_Nil)
next
  case (Cons e entries)
  then show ?case by (cases e) (simp add: deleteOldLog_Cons walkFn_now walkFn_trace)
qed

lemma deleteOldLog_files:
  "files (deleteOldLog w entries os) p =
     (if \<exists>i e. (p, Some i, e) \<in> set entries \<and> sweepMatches w (now os) p i then None
      else files os p)"
proof (induction entries arbitrary: os)
  case Nil
  then show ?case by (simp add: deleteOldLog_Nil)
next
  case (Cons e entries)
  then show ?case by (cases e) (auto simp: deleteOldLog_Cons walkFn_now walkFn_files)
qed

text \<open>
  What the sweep does, for every walk. A path is gone afterwards exactly when the walk
  visited it with a \<^verbatim>\<open>FileInfo\<close> that passes the code's test \<open>sweepMatches\<close>; every
  other path is as before. The calls issued are, visit by visit and in the order of the
  walk, one removal for a match and one report for a visit that panicked: the function
  never returns an error to the walk, so the visits after a panic are made like the
  others. The 64-bit difference of the test is the integer difference whenever that
  fits.
\<close>

lemma deleteOldLog_effect:
  "files (deleteOldLog w entries os) p =
     (if \<exists>i e. (p, Some i, e) \<in> set entries \<and> sweepMatches w (now os) p i then None
      else files os p) \<and>
   fst (Walk (walkFn w) entries os) = None \<and>
   trace (deleteOldLog w entries os) = trace os @ concat (map (visitEvents w (now os)) entries) \<and>
   (- (2 ^ 63) \<le> sint (Unix (now os)) - 86400 * sint (MaxDays w) \<and>
    sint (Unix (now os)) - 86400 * sint (MaxDays w) < 2 ^ 63 \<longrightarrow>
      sint (Unix (now os) - 60 * 60 * 24 * MaxDays w) = sint (Unix (now os)) - 86400 * sint (MaxDays w))"
proof (intro conjI impI)
  show "files (deleteOldLog w entries os) p =
     (if \<exists>i e. (p, Some i, e) \<in> set entries \<and> sweepMatches w (now os) p i then None
      else files os p)"
    by (rule deleteOldLog_files)
  show "fst (Walk (walkFn w) entries os) = None"
    by (rule Walk_walkFn_completes)
  show "trace (deleteOldLog w entries os) = trace os @ concat (map (visitEvents w (now os)) entries)"
    by (rule deleteOldLog_trace)
  assume "- (2 ^ 63) \<le> sint (Unix (now os)) - 86400 * sint (MaxDays w) \<and>
    sint (Unix (now os)) - 86400 * sint (MaxDays w) < 2 ^ 63"
  then show "sint (Unix (now os) - 60 * 60 * 24 * MaxDays w)
      = sint (Unix (now os)) - 86400 * sint (MaxDays w)"
    using sint_sub_mul [of "Unix (now os)" "MaxDays w"] by blast
qed

lemma sweep_sample_matches:
  "sweepMatches sample_backend day15 ''app.2023-11-05.001.log'' (aged 10)"
  "\<not> sweepMatches sample_backend day15 ''app.2023-11-14.001.log'' (aged 1)"
  "\<not> sweepMatches sample_backend day15 ''app.2023-10-16.001.txt'' (aged 30)"
  "\<not> sweepMatches sample_backend day15 ''app.log'' sample_file"
  by (simp_all add: sweepMatches_def sample_backend_def newBackend_sample aged_def day15_def day14_def
        sample_file_def Base_def HasPrefix_def HasSuffix_def)

text \<open>
  For a filename without a directory the test does what the specification says: the
  ten days old archive is removed, the younger one and the file with another suffix
  are kept, and the entry that could not be examined is reported.
\<close>

lemma deleteOldLog_effect_flat:
  "files (deleteOldLog sample_backend sweep_entries sweep_os) ''app.2023-11-05.001.log'' = None \<and>
   files (deleteOldLog sample_backend sweep_entries sweep_os) ''app.2023-11-14.001.log'' = Some (aged 1) \<and>
   files (deleteOldLog sample_backend sweep_entries sweep_os) ''app.2023-10-16.001.txt'' = Some (aged 30) \<and>
   trace (deleteOldLog sample_backend sweep_entries sweep_os) =
     [EvStderr (DiagDelete ''gone'' NilPointerDereference), EvRemove ''app.2023-11-05.001.log''] \<and>
   sint (Unix day15 - 60 * 60 * 24 * MaxDays sample_backend) = 1700049600 - 86400 * 7"
proof -
  have n: "now sweep_os = day15" "trace sweep_os = []"
    by (simp_all add: sweep_os_def sample_os_def)
  have r: "- (2 ^ 63) \<le> sint (Unix (now sweep_os)) - 86400 * sint (MaxDays sample_backend) \<and>
    sint (Unix (now sweep_os)) - 86400 * sint (MaxDays sample_backend) < 2 ^ 63"
    by (simp add: n day15_def sample_backend_def newBackend_sample)
  have e: "(\<exists>i e. (p, Some i, e) \<in> set sweep_entries \<and> sweepMatches sample_backend day15 p i)
            = (p = ''app.2023-11-05.001.log'')" for p
    using sweep_sample_matches by (auto simp: sweep_entries_def)
  have t: "concat (map (visitEvents sample_backend day15) sweep_entries) =
     [EvStderr (DiagDelete ''gone'' NilPointerDereference), EvRemove ''app.2023-11-05.001.log'']"
    by (simp add: sweep_entries_def visitEvents_def sweep_sample_matches)
  note th = deleteOldLog_effect [of sample_backend sweep_entries sweep_os]
  have "files (deleteOldLog sample_backend sweep_entries sweep_os) ''app.2023-11-05.001.log'' = None"
    using th [of "''app.2023-11-05.001.log''", THEN conjunct1] unfolding n e by simp
  moreover have "files (deleteOldLog sample_backend sweep_entries sweep_os) ''app.2023-11-14.001.log'' = Some (aged 1)"
    using th [of "''app.2023-11-14.001.log''", THEN conjunct1] unfolding n e by (simp add: sweep_os_def)
  moreover have "files (deleteOldLog sample_backend sweep_entries sweep_os) ''app.2023-10-16.001.txt'' = Some (aged 30)"
    using th [of "''app.2023-10-16.001.txt''", THEN conjunct1] unfolding n e by (simp add: sweep_os_def)
  moreover have "trace (deleteOldLog sample_backend sweep_entries sweep_os) =
     [EvStderr (DiagDelete ''gone'' NilPointerDereference), EvRemove ''app.2023-11-05.001.log'']"
    using th [of "[]", THEN conjunct2, THEN conjunct2, THEN conjunct1] by (simp only: n t append_Nil)
  moreover have "sint (Unix day15 - 60 * 60 * 24 * MaxDays sample_backend) = 1700049600 - 86400 * 7"
    using th [of "[]", THEN conjunct2, THEN conjunct2, THEN conjunct2, THEN mp, OF r]
    by (simp add: n day15_def sample_backend_def newBackend_sample)
  ultimately show ?thesis by blast
qed

text \<open>
  The base name keeps the directory of the filename and the name of an entry never has
  one. So for a filename with a directory the test is false for every entry, and the
  sweep removes nothing.
\<close>

lemma Base_slash: "Base path = ''/'' \<or> CHR ''/'' \<notin> set (Base path)"
  by (auto simp: Base_def Let_def dest: set_takeWhileD)

lemma sweepMatches_directory:
  assumes "CHR ''/'' \<in> set (fileNameOnly w)" "fileNameOnly w \<noteq> ''/''"
  shows "\<not> sweepMatches w t path i"
proof
  assume "sweepMatches w t path i"
  then have le: "length (fileNameOnly w) \<le> length (Base path)"
    and pre: "take (length (fileNameOnly w)) (Base path) = fileNameOnly w"
    by (simp_all add: sweepMatches_def HasPrefix_def)
  have "set (fileNameOnly w) \<subseteq> set (Base path)"
    using set_take_subset [of "length (fileNameOnly w)" "Base path"] pre by simp
  with assms(1) have "CHR ''/'' \<in> set (Base path)" by blast
  with Base_slash [of path] have b: "Base path = ''/''" by blast
  with le have "length (fileNameOnly w) \<le> 1" by simp
  with assms(1) pre b have "fileNameOnly w = ''/''"
    by (cases "fileNameOnly w") auto
  with assms(2) show False by simp
qed

lemma deleteOldLog_directory:
  assumes "CHR ''/'' \<in> set (fileNameOnly w)" "fileNameOnly w \<noteq> ''/''"
  shows "files (deleteOldLog w entries os) = files os"
  by (rule ext) (simp add: deleteOldLog_files sweepMatches_directory [OF assms])

lemma dir_backend_fields:
  "Filename dir_backend = ''logs/app.log''" "fileNameOnly dir_backend = ''logs/app''"
  "suffix dir_backend = ''.log''" "fileWriter dir_backend = Some 3"
  "Daily dir_backend" "dailyOpenDate dir_backend = 14" "MaxDays dir_backend = 7"
  by (simp_all add: dir_backend_def newBackend_def Let_def Ext_def TrimSuffix_def HasSuffix_def)

lemma dir_present: "Lstat dir_os (Filename dir_backend) = Inr sample_file"
  by (simp add: dir_backend_fields Lstat_def dir_os_def sample_os_def)

lemma dir_stamp: "archiveStamp dir_backend day15 sample_file = day14"
  by (simp add: archiveStamp_def dir_backend_fields sample_file_def day15_def)

lemma dir_first_name:
  "archiveName dir_backend (archiveStamp dir_backend day15 sample_file) 1
     = ''logs/app.2023-11-14.001.log''"
  by (simp only: dir_stamp archiveName_def Format_date_day14 Sprintf_03d_1 dir_backend_fields) simp

lemma dir_first_free:
  "files dir_os (archiveName dir_backend (archiveStamp dir_backend day15 sample_file) 1) = None"
  by (simp only: dir_first_name) (simp add: dir_os_def sample_os_def)

lemma dir_rotation:
  "\<exists>evs. trace (snd (snd (doRotate day15 (dir_backend, dir_os)))) =
     [EvClose (Some 3), EvRename ''logs/app.log'' ''logs/app.2023-11-14.001.log'',
      EvOpenFile ''logs/app.log''] @ evs"
proof -
  have t: "trace dir_os = []" by (simp add: dir_os_def sample_os_def)
  have "\<exists>evs. trace (snd (snd (doRotate day15 (dir_backend, dir_os)))) =
           trace dir_os @ [EvClose (fileWriter dir_backend),
                       EvRename (Filename dir_backend)
                         (archiveName dir_backend (archiveStamp dir_backend day15 sample_file) 1),
                       EvOpenFile (Filename dir_backend)] @ evs"
    by (rule doRotate_found_trace [OF dir_present _ _ dir_first_free]) simp_all
  then show ?thesis by (simp only: dir_first_name dir_backend_fields t append_Nil)
qed

text \<open>
  C5 fails on the code. A backend on \<^verbatim>\<open>logs/app.log\<close> rotates its file to
  \<^verbatim>\<open>logs/app.2023-11-14.001.log\<close>. A month later that archive is due by the
  specification: not a directory, its name starts with the name of the base and ends
  with the suffix, and it is older than seven days. The sweep visits it and keeps it,
  and issues no removal.
\<close>

theorem deleteOldLog_keeps_archive_in_directory:
  "EvRename ''logs/app.log'' ''logs/app.2023-11-14.001.log''
     \<in> set (trace (snd (snd (doRotate day15 (dir_backend, dir_os))))) \<and>
   sweepDue dir_backend month_later ''logs/app.2023-11-14.001.log'' sample_file \<and>
   files late_os ''logs/app.2023-11-14.001.log'' = Some sample_file \<and>
   files (deleteOldLog dir_backend late_entries late_os) ''logs/app.2023-11-14.001.log''
     = Some sample_file \<and>
   trace (deleteOldLog dir_backend late_entries late_os) = []"
proof -
  have r: "EvRename ''logs/app.log'' ''logs/app.2023-11-14.001.log''
     \<in> set (trace (snd (snd (doRotate day15 (dir_backend, dir_os)))))"
    using dir_rotation by auto
  have d: "sweepDue dir_backend month_later ''logs/app.2023-11-14.001.log'' sample_file"
    by (simp add: sweepDue_def dir_backend_fields sample_file_def month_later_def day14_def
          day15_def Base_def HasPrefix_def HasSuffix_def)
  have l: "files late_os ''logs/app.2023-11-14.001.log'' = Some sample_file"
    "trace late_os = []"
    by (simp_all add: late_os_def sample_os_def)
  have s: "CHR ''/'' \<in> set (fileNameOnly dir_backend)" "fileNameOnly dir_backend \<noteq> ''/''"
    by (simp_all add: dir_backend_fields)
  have f: "files (deleteOldLog dir_backend late_entries late_os) = files late_os"
    by (rule deleteOldLog_directory [OF s])
  have "visitEvents dir_backend t e = []" if "fst (snd e) \<noteq> None" for t e
    using that sweepMatches_directory [OF s]
    by (cases e) (auto simp: visitEvents_def split: option.splits)
  then have "concat (map (visitEvents dir_backend (now late_os)) late_entries) = []"
    by (simp add: late_entries_def)
  then have t: "trace (deleteOldLog dir_backend late_entries late_os) = []"
    by (simp add: deleteOldLog_trace l)
  from r d l f t show ?thesis by simp
qed

subsection \<open>Logging a record\<close>

lemma doRotate_unfold:
  assumes "Lstat os (Filename w) = Inr info"
  shows "doRotate t (w, os) =
     (if snd (probe_loop os w (archiveStamp w t info) 1 [] None) = None
      then (Some (ErrNoFreeNumber (Filename w)), (w, os))
      else
        (let os2 = snd (Rename (Filename w) (fst (probe_loop os w (archiveStamp w t info) 1 [] None))
                          (snd (CloseFile (fileWriter w) os)));
             renameErr = fst (Rename (Filename w) (fst (probe_loop os w (archiveStamp w t info) 1 [] None))
                          (snd (CloseFile (fileWriter w) os)));
             st = startLogger (w, os2)
         in (case fst st of
               Some e \<Rightarrow> Some (ErrRotateStartLogger e)
             | None \<Rightarrow> (case renameErr of Some e \<Rightarrow> Some (ErrRotate e) | None \<Rightarrow> None),
             (fst (snd st), emit (EvGo DeleteOldLog) (snd (snd st))))))"
proof (cases "Daily w \<and> Day t \<noteq> dailyOpenDate w")
  case True
  then have "archiveStamp w t info = ModTime info" by (simp add: archiveStamp_def)
  with True assms show ?thesis
    by (simp add: doRotate_def Let_def split: option.splits)
next
  case False
  then have "archiveStamp w t info = t" by (auto simp: archiveStamp_def)
  with False assms show ?thesis
    by (auto simp: doRotate_def Let_def split: option.splits)
qed

lemma doRotate_shape:
  "snd (doRotate t (w, os)) = (w, os) \<or>
   (\<exists>fName. snd (doRotate t (w, os)) =
      (fst (snd (startLogger (w, snd (Rename (Filename w) fName (snd (CloseFile (fileWriter w) os)))))),
       emit (EvGo DeleteOldLog)
         (snd (snd (startLogger (w, snd (Rename (Filename w) fName (snd (CloseFile (fileWriter w) os)))))))))"
proof (cases "Lstat os (Filename w)")
  case (Inl e)
  then show ?thesis by (simp add: doRotate_def)
next
  case (Inr info)
  show ?thesis
  proof (cases "snd (probe_loop os w (archiveStamp w t info) 1 [] None) = None")
    case True
    then show ?thesis by (simp add: doRotate_unfold [OF Inr])
  next
    case False
    then have "snd (doRotate t (w, os)) =
      (fst (snd (startLogger (w, snd (Rename (Filename w)
          (fst (probe_loop os w (archiveStamp w t info) 1 [] None))
          (snd (CloseFile (fileWriter w) os)))))),
       emit (EvGo DeleteOldLog)
         (snd (snd (startLogger (w, snd (Rename (Filename w)
          (fst (probe_loop os w (archiveStamp w t info) 1 [] None))
          (snd (CloseFile (fileWriter w) os))))))))"
      by (simp only: doRotate_unfold [OF Inr] if_False Let_def snd_conv)
    then show ?thesis by blast
  qed
qed

lemma doRotate_chan: "asyncMsgChan (fst (snd (doRotate t (w, os)))) = asyncMsgChan w"
  using doRotate_shape [of t w os] by (auto simp: startLogger_fields)

lemma doRotate_trace_ext: "\<exists>evs. trace (snd (snd (doRotate t (w, os)))) = trace os @ evs"
proof -
  from doRotate_shape [of t w os] show ?thesis
  proof
    assume "snd (doRotate t (w, os)) = (w, os)"
    then show ?thesis by simp
  next
    assume "\<exists>fName. snd (doRotate t (w, os)) =
      (fst (snd (startLogger (w, snd (Rename (Filename w) fName (snd (CloseFile (fileWriter w) os)))))),
       emit (EvGo DeleteOldLog)
         (snd (snd (startLogger (w, snd (Rename (Filename w) fName (snd (CloseFile (fileWriter w) os))))))))"
    then obtain fName where f: "snd (doRotate t (w, os)) =
      (fst (snd (startLogger (w, snd (Rename (Filename w) fName (snd (CloseFile (fileWriter w) os)))))),
       emit (EvGo DeleteOldLog)
         (snd (snd (startLogger (w, snd (Rename (Filename w) fName (snd (CloseFile (fileWriter w) os))))))))"
      by blast
    obtain evs where "trace (snd (snd (startLogger (w, snd (Rename (Filename w) fName (snd (CloseFile (fileWriter w) os))))))) =
        trace (snd (Rename (Filename w) fName (snd (CloseFile (fileWriter w) os)))) @ EvOpenFile (Filename w) # evs"
      using startLogger_trace by blast
    then show ?thesis
      by (simp add: f emit_def Rename_trace CloseFile_trace)
  qed
qed

lemma rotateIfNeeded_chan: "asyncMsgChan (fst (rotateIfNeeded msg t (w, os))) = asyncMsgChan w"
  by (simp add: rotateIfNeeded_def doRotate_chan split: option.splits)

lemma rotateIfNeeded_trace_ext:
  "\<exists>evs. trace (snd (rotateIfNeeded msg t (w, os))) = trace os @ evs"
proof -
  obtain evs where "trace (snd (snd (doRotate t (w, os)))) = trace os @ evs"
    using doRotate_trace_ext by blast
  then show ?thesis
    by (simp add: rotateIfNeeded_def emit_def split: option.splits)
qed

lemma isDigit_not_m: "isDigit c \<Longrightarrow> c \<noteq> CHR ''m''"
  by (auto simp: isDigit_def)

lemma stripColor_colorSeq: "isColorSeq c \<Longrightarrow> stripColor (c @ s) = stripColor s"
  by (induction c rule: isColorSeq.induct) (auto simp: isDigit_not_m)

lemma stripColor_only_colors: "\<forall>c \<in> set cs. isColorSeq c \<Longrightarrow> stripColor (concat cs) = []"
  by (induction cs) (simp_all add: stripColor_colorSeq)

lemma matchColor_not_esc: "c \<noteq> CHR 0x1B \<Longrightarrow> matchColor (c # s) = None"
  by (cases "c # s" rule: matchColor.cases) auto

lemma stripColor_plain_append: "CHR 0x1B \<notin> set p \<Longrightarrow> stripColor (p @ s) = p @ stripColor s"
proof (induction p)
  case Nil
  then show ?case by simp
next
  case (Cons c cs)
  then have "matchColor (c # cs @ s) = None"
    by (intro matchColor_not_esc) auto
  with Cons show ?case by simp
qed

text \<open>
  A text made of pieces without an escape byte and of colour sequences, in any order,
  is left with the pieces and without the sequences.
\<close>

lemma stripColor_chunks:
  assumes "\<forall>c \<in> set chunks. case c of Inl p \<Rightarrow> CHR 0x1B \<notin> set p | Inr q \<Rightarrow> isColorSeq q"
  shows "stripColor (concat (map (case_sum id id) chunks))
           = concat (map (case_sum id (\<lambda>q. [])) chunks)"
  using assms
proof (induction chunks)
  case Nil
  then show ?case by simp
next
  case (Cons c chunks)
  then show ?case
    by (cases c) (simp_all add: stripColor_plain_append stripColor_colorSeq)
qed

lemma send_not_index: "send msg ch s \<noteq> Inl IndexOutOfRange"
  by (cases s) (simp add: send_def)

lemma Log_running:
  assumes "status w \<noteq> 0" "stripColor (Formatted rec (calldepth + 1) False) = m" "m \<noteq> []"
  shows "Log calldepth rec (w, os) =
     (case asyncMsgChan w of
        Some ch \<Rightarrow>
          send (if last m \<noteq> CHR 0x0A then m @ [CHR 0x0A] else m) ch
            (rotateIfNeeded (if last m \<noteq> CHR 0x0A then m @ [CHR 0x0A] else m) (Time rec) (w, os))
      | None \<Rightarrow>
          Inr (write_msg (if last m \<noteq> CHR 0x0A then m @ [CHR 0x0A] else m)
            (rotateIfNeeded (if last m \<noteq> CHR 0x0A then m @ [CHR 0x0A] else m) (Time rec) (w, os))))"
  using assms by (simp add: Log_def Let_def rotateIfNeeded_chan)

text \<open>
  Where the rendered record is not empty after the colour sequences are taken out, a
  synchronous backend writes exactly those bytes, with a newline added when the last
  byte is not one, in a single write; an asynchronous one puts them on the channel.
\<close>

lemma Log_sync_writes:
  assumes "status w \<noteq> 0" "asyncMsgChan w = None"
    "stripColor (Formatted rec (calldepth + 1) False) = m" "m \<noteq> []"
  shows "\<exists>w' os' pre fw post.
     Log calldepth rec (w, os) = Inr (w', os') \<and>
     trace os' = trace os @ pre @
       EvWrite fw (if last m = CHR 0x0A then m else m @ [CHR 0x0A]) # post \<and>
     (post = [] \<or> (\<exists>e. post = [EvStderr (DiagWrite (if last m = CHR 0x0A then m else m @ [CHR 0x0A]) e)]))"
proof -
  define msg where "msg = (if last m = CHR 0x0A then m else m @ [CHR 0x0A])"
  have eq: "(if last m \<noteq> CHR 0x0A then m @ [CHR 0x0A] else m) = msg"
    by (simp add: msg_def)
  define s1 where "s1 = rotateIfNeeded msg (Time rec) (w, os)"
  define post where "post =
     (case fst (WriteFile (fileWriter (fst s1)) msg (snd s1)) of
        None \<Rightarrow> [] | Some e \<Rightarrow> [EvStderr (DiagWrite msg e)])"
  have l: "Log calldepth rec (w, os) = Inr (fst (write_msg msg s1), snd (write_msg msg s1))"
    using Log_running [OF assms(1,3,4)] assms(2) by (simp add: eq s1_def)
  obtain pre where pre: "trace (snd s1) = trace os @ pre"
    using rotateIfNeeded_trace_ext [of msg "Time rec" w os] by (auto simp: s1_def)
  have t: "trace (snd (write_msg msg s1)) = trace os @ pre @ EvWrite (fileWriter (fst s1)) msg # post"
    using write_msg_trace_exact [of msg "fst s1" "snd s1"] pre by (simp add: post_def)
  have p: "post = [] \<or> (\<exists>e. post = [EvStderr (DiagWrite msg e)])"
    by (simp add: post_def split: option.splits)
  from l t p show ?thesis unfolding msg_def [symmetric] by blast
qed

lemma Log_async_sends:
  assumes "status w \<noteq> 0" "asyncMsgChan w = Some ch" "\<not> ch_closed ch"
    "stripColor (Formatted rec (calldepth + 1) False) = m" "m \<noteq> []"
  shows "\<exists>w' os'.
     Log calldepth rec (w, os) = Inr (w', os') \<and>
     asyncMsgChan w' =
       Some (ch\<lparr>ch_buf := ch_buf ch @ [if last m = CHR 0x0A then m else m @ [CHR 0x0A]]\<rparr>)"
proof -
  define msg where "msg = (if last m = CHR 0x0A then m else m @ [CHR 0x0A])"
  have eq: "(if last m \<noteq> CHR 0x0A then m @ [CHR 0x0A] else m) = msg"
    by (simp add: msg_def)
  define s1 where "s1 = rotateIfNeeded msg (Time rec) (w, os)"
  have l: "Log calldepth rec (w, os) = send msg ch (fst s1, snd s1)"
    using Log_running [OF assms(1,4,5)] assms(2) by (simp add: eq s1_def)
  have "send msg ch (fst s1, snd s1) =
     Inr ((fst s1)\<lparr>asyncMsgChan := Some (ch\<lparr>ch_buf := ch_buf ch @ [msg]\<rparr>)\<rparr>, snd s1)"
    using assms(3) by (cases s1) (simp add: send_def)
  with l show ?thesis unfolding msg_def [symmetric] by simp
qed

text \<open>
  C8. On a running backend \<open>Log\<close> panics with an index out of range exactly when the
  rendered record is empty once the colour sequences are taken out; otherwise, with the
  channels as the constructor made them, it returns. A text made of colour sequences
  only is empty once they are taken out.
\<close>

theorem Log_last_byte:
  "(status w \<noteq> 0 \<longrightarrow>
      (Log calldepth rec (w, os) = Inl IndexOutOfRange) =
      (stripColor (Formatted rec (calldepth + 1) False) = [])) \<and>
   (status w \<noteq> 0 \<and> chans_open w \<and> stripColor (Formatted rec (calldepth + 1) False) \<noteq> [] \<longrightarrow>
      (\<exists>s'. Log calldepth rec (w, os) = Inr s')) \<and>
   ((\<forall>c \<in> set cs. isColorSeq c) \<longrightarrow> stripColor (concat cs) = [])"
proof (intro conjI impI)
  assume "status w \<noteq> 0"
  then show "(Log calldepth rec (w, os) = Inl IndexOutOfRange) =
      (stripColor (Formatted rec (calldepth + 1) False) = [])"
    by (simp add: Log_def Let_def send_not_index split: option.splits)
next
  assume a: "status w \<noteq> 0 \<and> chans_open w \<and> stripColor (Formatted rec (calldepth + 1) False) \<noteq> []"
  show "\<exists>s'. Log calldepth rec (w, os) = Inr s'"
  proof (cases "asyncMsgChan w")
    case None
    with a Log_sync_writes [of w rec calldepth _ os] show ?thesis by blast
  next
    case (Some ch)
    with a have "\<not> ch_closed ch"
      by (auto simp: chans_open_def split: option.splits)
    with a Some Log_async_sends [of w ch rec calldepth _ os] show ?thesis by blast
  qed
next
  assume "\<forall>c \<in> set cs. isColorSeq c"
  then show "stripColor (concat cs) = []" by (rule stripColor_only_colors)
qed

theorem Log_last_byte_witness:
  "Log 0 (sample_record (concat [esc_red, esc_reset])) (sample_backend, sample_os) = Inl IndexOutOfRange \<and>
   (\<exists>s'. Log 0 (sample_record (esc_red @ ''x'' @ esc_reset)) (sample_backend, sample_os) = Inr s')"
proof -
  have r: "status sample_backend \<noteq> 0" "chans_open sample_backend"
    by (simp_all add: sample_backend_def newBackend_sample chans_open_def)
  have c: "\<forall>c \<in> set [esc_red, esc_reset]. isColorSeq c"
    by (simp add: esc_red_def esc_reset_def isDigit_def)
  have n: "stripColor (Formatted (sample_record (esc_red @ ''x'' @ esc_reset)) (0 + 1) False) \<noteq> []"
    by (simp add: sample_record_def esc_red_def esc_reset_def isDigit_def)
  have f: "Formatted (sample_record r) d b = r" for r d b
    by (simp add: sample_record_def)
  note t1 = Log_last_byte [of sample_backend 0 "sample_record (concat [esc_red, esc_reset])" sample_os
      "[esc_red, esc_reset]"]
  note t2 = Log_last_byte [of sample_backend 0 "sample_record (esc_red @ ''x'' @ esc_reset)" sample_os "[]"]
  have "stripColor (concat [esc_red, esc_reset]) = []"
    using t1 [THEN conjunct2, THEN conjunct2, THEN mp, OF c] .
  then have "Log 0 (sample_record (concat [esc_red, esc_reset])) (sample_backend, sample_os)
      = Inl IndexOutOfRange"
    using t1 [THEN conjunct1, THEN mp, OF r(1)] by (simp only: f)
  moreover have "\<exists>s'. Log 0 (sample_record (esc_red @ ''x'' @ esc_reset)) (sample_backend, sample_os) = Inr s'"
    using t2 [THEN conjunct2, THEN conjunct1, THEN mp] r n by blast
  ultimately show ?thesis by blast
qed

text \<open>
  C6 fails where C8 says the code panics: for a record that renders to nothing, or to
  a colour sequence only, no newline is appended and nothing is written.
\<close>

theorem Log_empty_render_panics:
  "Log 0 (sample_record []) (sample_backend, sample_os) = Inl IndexOutOfRange \<and>
   Log 0 (sample_record esc_reset) (sample_backend, sample_os) = Inl IndexOutOfRange"
  by (simp add: Log_def sample_record_def sample_backend_def esc_reset_def isDigit_def)

end
